theory Spec2Isabelle
  imports Complex_Main
begin

section \<open>Risk classifier (backend/src/services/crisisDetection.ts)\<close>

subsection \<open>Risk levels\<close>

text \<open>
  The string literal type \<^verbatim>\<open>'none' | 'low' | 'medium' | 'high' | 'critical'\<close>.
  \<open>RISK_LEVELS\<close> is the array of the source and \<open>indexOf\<close> is
  \<^verbatim>\<open>Array.prototype.indexOf\<close>: the position of the first equal element, \<open>-1\<close> when
  there is none.
\<close>

datatype risk_level = RNone | Low | Medium | High | Critical

definition RISK_LEVELS :: "risk_level list" where
  "RISK_LEVELS = [RNone, Low, Medium, High, Critical]"

fun indexOf :: "'a list \<Rightarrow> 'a \<Rightarrow> int" where
  "indexOf [] x = - 1"
| "indexOf (y # ys) x =
     (if y = x then 0 else (let i = indexOf ys x in if i < 0 then - 1 else i + 1))"

subsection \<open>Strings\<close>

text \<open>
  A JavaScript string is a sequence of UTF-16 code units. The message texts of the model
  are the strings whose code units are below 256, one \<^typ>\<open>char\<close> per code unit
  (Latin-1). On these \<^verbatim>\<open>toLowerCase\<close> maps unit by unit: \<open>A\<close>--\<open>Z\<close> and the
  accented capitals \<open>0xC0\<close>--\<open>0xDE\<close> (the multiplication sign \<open>0xD7\<close> apart) move up
  by 32, every other unit stays. \<^verbatim>\<open>String.prototype.includes\<close> is the search for a
  contiguous run of code units.
\<close>

definition lower_char :: "char \<Rightarrow> char" where
  "lower_char c =
     (let n = (of_char c :: nat)
      in if (65 \<le> n \<and> n \<le> 90) \<or> (192 \<le> n \<and> n \<le> 222 \<and> n \<noteq> 215)
         then char_of (n + 32) else c)"

definition toLowerCase :: "string \<Rightarrow> string" where
  "toLowerCase s = map lower_char s"

fun startsWith :: "string \<Rightarrow> string \<Rightarrow> bool" where
  "startsWith s [] = True"
| "startsWith [] (k # ks) = False"
| "startsWith (c # cs) (k # ks) = (c = k \<and> startsWith cs ks)"

fun includes_str :: "string \<Rightarrow> string \<Rightarrow> bool" where
  "includes_str [] k = (k = [])"
| "includes_str (c # cs) k = (startsWith (c # cs) k \<or> includes_str cs k)"

subsection \<open>Keyword tables\<close>

text \<open>
  \<open>CRISIS_KEYWORDS\<close> is an object with the four keys critical, high, medium and low;
  the scan only ever reads those four, so the entry for \<open>RNone\<close> is never looked up.
\<close>

fun CRISIS_KEYWORDS :: "risk_level \<Rightarrow> string list" where
  "CRISIS_KEYWORDS Critical =
     [''suicide'', ''kill myself'', ''end my life'', ''want to die'', ''better off dead'',
      ''no reason to live'', ''goodbye world'', ''final goodbye'']"
| "CRISIS_KEYWORDS High =
     [''self harm'', ''cut myself'', ''hurt myself'', ''overdose'', ''jump off'',
      ''hang myself'', ''planning to'', ''going to hurt'']"
| "CRISIS_KEYWORDS Medium =
     [''hopeless'', ''worthless'', ''cant go on'', ''no point'', ''give up'', ''ending it'',
      ''rather be dead'', ''disappear forever'']"
| "CRISIS_KEYWORDS Low =
     [''depressed'', ''anxious'', ''scared'', ''alone'', ''struggling'', ''hard time'',
      ''overwhelming'', ''cant cope'']"
| "CRISIS_KEYWORDS RNone = []"

definition HIGH_RISK_EMOTIONS :: "string list" where
  "HIGH_RISK_EMOTIONS = [''sadness'', ''fear'', ''anger'']"

definition MEDIUM_RISK_EMOTIONS :: "string list" where
  "MEDIUM_RISK_EMOTIONS = [''disgust'', ''surprise'']"

subsection \<open>The verdict\<close>

text \<open>
  \<open>CrisisDetectionResult\<close>. An optional field that is left out is \<open>None\<close>. A label read
  from an element that has none is \<^verbatim>\<open>undefined\<close>, hence the inner option of
  \<open>detectedEmotions\<close>. Scores and confidences are IEEE doubles in the source and real
  numbers here.
\<close>

record CrisisDetectionResult =
  isCrisis :: bool
  riskLevel :: risk_level
  detectedEmotions :: "string option list option"
  triggeredKeywords :: "string list option"
  confidence :: real

subsection \<open>analyzeWithKeywords\<close>

text \<open>
  The body of the inner loop, on the pair of the two loop variables
  \<open>(triggeredKeywords, highestRiskLevel)\<close>; then the inner loop over the phrases of one
  level, and the outer loop over \<open>levels\<close>.
\<close>

definition scan_keyword ::
  "string \<Rightarrow> risk_level \<Rightarrow> string \<Rightarrow> string list \<times> risk_level \<Rightarrow> string list \<times> risk_level"
where
  "scan_keyword lowerMessage level keyword acc =
     (case acc of (triggered, highestRiskLevel) \<Rightarrow>
        if includes_str lowerMessage keyword then
          (triggered @ [keyword],
           (let currentLevelIndex = indexOf RISK_LEVELS highestRiskLevel;
                newLevelIndex = indexOf RISK_LEVELS level
            in if newLevelIndex > currentLevelIndex then level else highestRiskLevel))
        else (triggered, highestRiskLevel))"

definition scan_level ::
  "string \<Rightarrow> risk_level \<Rightarrow> string list \<times> risk_level \<Rightarrow> string list \<times> risk_level"
where
  "scan_level lowerMessage level acc =
     fold (scan_keyword lowerMessage level) (CRISIS_KEYWORDS level) acc"

definition levels :: "risk_level list" where
  "levels = [Critical, High, Medium, Low]"

definition analyzeWithKeywords :: "string \<Rightarrow> CrisisDetectionResult" where
  "analyzeWithKeywords message =
     (let lowerMessage = toLowerCase message;
          scanned = fold (scan_level lowerMessage) levels ([], RNone);
          triggered = fst scanned;
          highestRiskLevel = snd scanned
      in \<lparr> isCrisis = (highestRiskLevel \<noteq> RNone),
           riskLevel = highestRiskLevel,
           detectedEmotions = None,
           triggeredKeywords = Some triggered,
           confidence = (if length triggered > 0 then 0.7 else 0.0) \<rparr>)"

subsection \<open>analyzeWithHuggingFace\<close>

text \<open>
  What a statement does when it is run: it completes, or it throws.
\<close>

datatype 'a attempt = Raised | Returned 'a

text \<open>
  The emotion service is outside the program, so what it answers is an input of the
  model. \<open>hf_call\<close> lists what can happen to one request: no API token is configured;
  \<^verbatim>\<open>fetch\<close> rejects (the service is unreachable); the response is not OK;
  \<^verbatim>\<open>response.json()\<close> rejects (the body is not JSON); or the body parses to a JSON
  value.

  The source asserts the body to be \<^verbatim>\<open>HuggingFaceResponse[][]\<close> without checking it,
  so a body can have any JSON shape. The shapes of the model: the body is \<^verbatim>\<open>null\<close>, a
  boolean, a number, a string, an array of entries, or an object, of which the model
  keeps the property \<^verbatim>\<open>0\<close> (\<open>BObj None\<close> has none, \<open>BObj (Some v)\<close> has the entry
  \<open>v\<close> there). An entry is \<^verbatim>\<open>null\<close>, a boolean, a number, a string, an array of
  items, or an object, of which the model keeps the property \<^verbatim>\<open>length\<close>
  (\<open>JObj None\<close> has none; otherwise it is \<^verbatim>\<open>null\<close>, a boolean or a number, and
  \<open>to_number\<close> is what \<^verbatim>\<open>>\<close> compares). No value of a JSON object is a function,
  so an object has no \<^verbatim>\<open>map\<close> method. An item is \<^verbatim>\<open>null\<close> or a value with a
  \<^verbatim>\<open>label\<close> that is a string or absent and a \<^verbatim>\<open>score\<close> that is a number or
  absent.
\<close>

datatype emotion_item = ItemNull | Item "string option" "real option"

datatype js_prim = PNull | PBool bool | PNum real

fun to_number :: "js_prim \<Rightarrow> real" where
  "to_number PNull = 0"
| "to_number (PBool b) = (if b then 1 else 0)"
| "to_number (PNum x) = x"

datatype js_value =
  JNull | JBool bool | JNum real | JStr string | JItems "emotion_item list" | JObj "js_prim option"

datatype hf_body =
  BNull | BBool bool | BNum real | BStr string | BArr "js_value list" | BObj "js_value option"

datatype hf_call = NoToken | FetchRejected | NotOk | BadJson | OkBody hf_body

text \<open>
  \<^verbatim>\<open>result[0]\<close>: a TypeError on \<^verbatim>\<open>null\<close>, the first element of an array, the first
  code unit of a string, the property \<^verbatim>\<open>0\<close> of an object, and \<^verbatim>\<open>undefined\<close>
  (\<open>None\<close>) everywhere else.
\<close>

fun first_entry :: "hf_body \<Rightarrow> js_value option attempt" where
  "first_entry BNull = Raised"
| "first_entry (BArr []) = Returned None"
| "first_entry (BArr (x # xs)) = Returned (Some x)"
| "first_entry (BStr []) = Returned None"
| "first_entry (BStr (c # cs)) = Returned (Some (JStr [c]))"
| "first_entry (BBool b) = Returned None"
| "first_entry (BNum x) = Returned None"
| "first_entry (BObj p) = Returned p"

fun truthy :: "js_value \<Rightarrow> bool" where
  "truthy JNull = False"
| "truthy (JBool b) = b"
| "truthy (JNum x) = (x \<noteq> 0)"
| "truthy (JStr s) = (s \<noteq> [])"
| "truthy (JItems xs) = True"
| "truthy (JObj l) = True"

text \<open>
  The result is \<^verbatim>\<open>EmotionScore[] | null\<close> by its declared type; \<open>None\<close> is
  \<^verbatim>\<open>null\<close>. Every exception of the \<^verbatim>\<open>try\<close> block is caught and gives
  \<^verbatim>\<open>null\<close>; \<^verbatim>\<open>result[0] || null\<close> turns a falsy first entry into \<^verbatim>\<open>null\<close>.
\<close>

definition analyzeWithHuggingFace :: "string \<Rightarrow> hf_call \<Rightarrow> js_value option" where
  "analyzeWithHuggingFace message call =
     (case call of
        NoToken \<Rightarrow> None
      | FetchRejected \<Rightarrow> None
      | NotOk \<Rightarrow> None
      | BadJson \<Rightarrow> None
      | OkBody result \<Rightarrow>
          (case first_entry result of
             Raised \<Rightarrow> None
           | Returned None \<Rightarrow> None
           | Returned (Some v) \<Rightarrow> if truthy v then Some v else None))"

subsection \<open>detectCrisis\<close>

text \<open>
  \<^verbatim>\<open>emotions.length\<close>, as the number that \<^verbatim>\<open>> 0\<close> compares (\<open>None\<close> is
  \<^verbatim>\<open>undefined\<close>, and \<^verbatim>\<open>undefined > 0\<close> is false), and \<^verbatim>\<open>x > y\<close> for a score
  that may be absent.
\<close>

fun js_length :: "js_value \<Rightarrow> real option" where
  "js_length (JStr s) = Some (real (length s))"
| "js_length (JItems xs) = Some (real (length xs))"
| "js_length (JObj l) = map_option to_number l"
| "js_length JNull = None"
| "js_length (JBool b) = None"
| "js_length (JNum x) = None"

definition gt :: "real option \<Rightarrow> real \<Rightarrow> bool" where
  "gt x y = (case x of None \<Rightarrow> False | Some v \<Rightarrow> v > y)"

definition array_includes :: "string list \<Rightarrow> string option \<Rightarrow> bool" where
  "array_includes xs l = (case l of None \<Rightarrow> False | Some s \<Rightarrow> s \<in> set xs)"

text \<open>
  \<^verbatim>\<open>emotions.map((e) => e.label)\<close>: reading a property of \<^verbatim>\<open>null\<close> throws.
\<close>

fun item_label :: "emotion_item \<Rightarrow> string option attempt" where
  "item_label ItemNull = Raised"
| "item_label (Item label score) = Returned label"

fun map_labels :: "emotion_item list \<Rightarrow> string option list attempt" where
  "map_labels [] = Returned []"
| "map_labels (e # es) =
     (case item_label e of
        Raised \<Rightarrow> Raised
      | Returned l \<Rightarrow>
          (case map_labels es of Raised \<Rightarrow> Raised | Returned ls \<Rightarrow> Returned (l # ls)))"

text \<open>
  The body of the loop over the emotions, on the loop variables \<open>riskLevel\<close> and \<open>maxScore\<close>,
  and the loop.
\<close>

fun score_emotion :: "emotion_item \<Rightarrow> risk_level \<times> real \<Rightarrow> (risk_level \<times> real) attempt" where
  "score_emotion ItemNull acc = Raised"
| "score_emotion (Item label score) (risk, maxScore) =
     Returned
       (if array_includes HIGH_RISK_EMOTIONS label \<and> gt score 0.5 then
          (let potentialRisk = (if gt score 0.7 then High else Medium)
           in if indexOf RISK_LEVELS potentialRisk > indexOf RISK_LEVELS risk
              then potentialRisk else risk)
        else if array_includes MEDIUM_RISK_EMOTIONS label \<and> gt score 0.6 then
          (if risk = RNone then Low else risk)
        else risk,
        case score of
          None \<Rightarrow> maxScore
        | Some v \<Rightarrow> if v > maxScore then v else maxScore)"

fun score_emotions :: "emotion_item list \<Rightarrow> risk_level \<times> real \<Rightarrow> (risk_level \<times> real) attempt" where
  "score_emotions [] acc = Returned acc"
| "score_emotions (e # es) acc =
     (case score_emotion e acc of Raised \<Rightarrow> Raised | Returned acc' \<Rightarrow> score_emotions es acc')"

text \<open>
  The merge of the two analyses, once the labels and the scores have been read.
\<close>

definition merge_verdict ::
  "string \<Rightarrow> string option list \<Rightarrow> risk_level \<times> real \<Rightarrow> CrisisDetectionResult"
where
  "merge_verdict message detected ai =
     (let keywordResult = analyzeWithKeywords message;
          aiRiskIndex = indexOf RISK_LEVELS (fst ai);
          keywordRiskIndex = indexOf RISK_LEVELS (riskLevel keywordResult);
          final = (if keywordRiskIndex > aiRiskIndex then riskLevel keywordResult else fst ai)
      in \<lparr> isCrisis = (final \<noteq> RNone),
           riskLevel = final,
           detectedEmotions = Some detected,
           triggeredKeywords = triggeredKeywords keywordResult,
           confidence = snd ai \<rparr>)"

text \<open>
  \<open>detectCrisis\<close> has no \<^verbatim>\<open>try\<close> of its own: what throws here rejects its promise. A
  truthy \<open>emotions\<close> of positive length is a string or an object, which have no
  \<^verbatim>\<open>map\<close> method, or an array of items.
\<close>

definition detectCrisis :: "string \<Rightarrow> hf_call \<Rightarrow> CrisisDetectionResult attempt" where
  "detectCrisis message call =
     (case analyzeWithHuggingFace message call of
        None \<Rightarrow> Returned (analyzeWithKeywords message)
      | Some emotions \<Rightarrow>
          if (case js_length emotions of None \<Rightarrow> False | Some n \<Rightarrow> n > 0) then
            (case emotions of
               JItems items \<Rightarrow>
                 (case map_labels items of
                    Raised \<Rightarrow> Raised
                  | Returned detected \<Rightarrow>
                      (case score_emotions items (RNone, 0) of
                         Raised \<Rightarrow> Raised
                       | Returned ai \<Rightarrow> Returned (merge_verdict message detected ai)))
             | _ \<Rightarrow> Raised)
          else Returned (analyzeWithKeywords message))"

subsection \<open>getCrisisResourcesMessage\<close>

text \<open>
  The texts go out on the wire only; their characters beyond ASCII are written as the
  bytes of their UTF-8 encoding.
\<close>

definition baseMessage :: string where
  "baseMessage =
     [CHR 0xF0, CHR 0x9F, CHR 0x86, CHR 0x98] @ '' **Crisis Resources** '' @
     [CHR 0xF0, CHR 0x9F, CHR 0x86, CHR 0x98, CHR 0x0A, CHR 0x0A] @
     ''**If you are in immediate danger, please call emergency services (911/112/999).**'' @
     [CHR 0x0A, CHR 0x0A]"

definition resources :: string where
  "resources =
     ''**24/7 Crisis Hotlines:**'' @ [CHR 0x0A] @
     [CHR 0xE2, CHR 0x80, CHR 0xA2] @ '' US: Call/Text **988** (Suicide & Crisis Lifeline)'' @
     [CHR 0x0A] @
     [CHR 0xE2, CHR 0x80, CHR 0xA2] @ '' US: Text **HOME** to **741741** (Crisis Text Line)'' @
     [CHR 0x0A] @
     [CHR 0xE2, CHR 0x80, CHR 0xA2] @ '' International: **findahelpline.com**'' @
     [CHR 0x0A, CHR 0x0A] @
     ''**You are not alone. Help is available.**''"

definition getCrisisResourcesMessage :: "risk_level \<Rightarrow> string" where
  "getCrisisResourcesMessage level =
     (if level = Critical \<or> level = High then
        baseMessage @
        [CHR 0xE2, CHR 0x9A, CHR 0xA0, CHR 0xEF, CHR 0xB8, CHR 0x8F] @
        '' **This message may indicate a mental health crisis.** '' @
        [CHR 0xE2, CHR 0x9A, CHR 0xA0, CHR 0xEF, CHR 0xB8, CHR 0x8F, CHR 0x0A, CHR 0x0A] @
        ''Please reach out to a crisis professional immediately:'' @ [CHR 0x0A, CHR 0x0A] @
        resources
      else if level = Medium then
        baseMessage @
        ''If you'' @ [CHR 0x27] @ ''re struggling, consider reaching out:'' @
        [CHR 0x0A, CHR 0x0A] @
        resources
      else
        [CHR 0xF0, CHR 0x9F, CHR 0x92, CHR 0x99] @ '' **Support Resources** '' @
        [CHR 0xF0, CHR 0x9F, CHR 0x92, CHR 0x99, CHR 0x0A, CHR 0x0A] @
        ''If you need support, here are some resources:'' @ [CHR 0x0A, CHR 0x0A] @
        resources)"

section \<open>Chat server (backend/src/services/chatServer.ts)\<close>

subsection \<open>Data\<close>

text \<open>
  A \<open>socket\<close> is the identity of one \<^verbatim>\<open>WebSocket\<close> object; \<^verbatim>\<open>member.ws === ws\<close>
  compares identities. The objects themselves live in the store \<open>sockets\<close> of the server
  state, because a room member and the handlers share them: a \<open>connection\<close> holds the
  \<^verbatim>\<open>readyState\<close> of the transport and the fields that the server attaches to the
  object (\<^verbatim>\<open>isAlive\<close>, \<^verbatim>\<open>roomId\<close>, \<^verbatim>\<open>userId\<close>, \<^verbatim>\<open>nickname\<close>;
  \<open>None\<close> is \<^verbatim>\<open>undefined\<close>). A socket accepted by the server is never in the
  connecting state. Times (\<^verbatim>\<open>new Date().toISOString()\<close>, \<^verbatim>\<open>created_at\<close>) are
  natural numbers.
\<close>

type_synonym socket = nat

type_synonym time = nat

datatype ready_state = OPEN | CLOSING | CLOSED

record connection =
  readyState :: ready_state
  isAlive :: bool
  ws_roomId :: "string option"
  ws_userId :: "string option"
  ws_nickname :: "string option"

record RoomMember =
  member_ws :: socket
  member_userId :: string
  member_nickname :: string

text \<open>
  An inbound frame after \<^verbatim>\<open>JSON.parse\<close>, with the fields of \<open>ChatMessage\<close> that the
  server reads; \<open>Unparseable\<close> is a frame on which \<^verbatim>\<open>JSON.parse\<close> throws or yields
  \<^verbatim>\<open>null\<close>.
\<close>

record ChatMessage =
  msg_type :: string
  msg_roomId :: "string option"
  msg_userId :: "string option"
  msg_nickname :: "string option"
  msg_content :: "string option"

datatype inbound = Unparseable | Frame ChatMessage

text \<open>
  The table \<^verbatim>\<open>messages\<close>: the row that the server hands to \<^verbatim>\<open>insert\<close>, and a row as
  the storage returns it.
\<close>

record new_message =
  new_room_id :: string
  new_user_id :: string
  new_nickname :: "string option"
  new_content :: string
  new_risk_level :: risk_level

record stored_message =
  room_id :: string
  user_id :: string
  row_nickname :: "string option"
  content :: string
  risk_level :: risk_level
  created_at :: time

text \<open>
  The storage client answers a query with an object \<^verbatim>\<open>{ data, error }\<close>, or its
  promise rejects.
\<close>

record 'a response =
  data :: "'a option"
  error :: "string option"

datatype 'a settled = Rejected | Resolved 'a

datatype storage_request = Insert new_message | SelectRecent string nat

text \<open>
  The outbound frames, before \<^verbatim>\<open>JSON.stringify\<close>: \<open>error\<close>, \<open>history\<close>,
  \<open>join\<close> and \<open>leave\<close> (userId, nickname, timestamp), \<open>chat\<close> (userId, nickname,
  content, timestamp, riskLevel) and \<open>crisis_alert\<close> (riskLevel, message, timestamp).
\<close>

datatype event =
    EvError string
  | EvHistory "stored_message list"
  | EvJoin string string time
  | EvLeave string "string option" time
  | EvChat string "string option" string time risk_level
  | EvCrisisAlert risk_level string time

text \<open>
  The state of the server: the nested \<^verbatim>\<open>Map\<close> \<open>rooms\<close>, the store of the socket
  objects, \<^verbatim>\<open>wss.clients\<close>, and the two logs of what the server has done to the outside:
  every call of \<^verbatim>\<open>ws.send\<close> and every query handed to the storage, in call order.
\<close>

record server =
  rooms :: "(string \<times> (string \<times> RoomMember) list) list"
  sockets :: "socket \<Rightarrow> connection"
  clients :: "socket list"
  sent :: "(socket \<times> event) list"
  requests :: "storage_request list"

subsection \<open>The JavaScript Map\<close>

text \<open>
  A \<^verbatim>\<open>Map\<close> iterates in insertion order, and \<^verbatim>\<open>set\<close> on a key that is present
  replaces the value where it stands: an association list.
\<close>

fun map_get :: "('k \<times> 'v) list \<Rightarrow> 'k \<Rightarrow> 'v option" where
  "map_get [] k = None"
| "map_get ((k', v) # m) k = (if k' = k then Some v else map_get m k)"

definition map_has :: "('k \<times> 'v) list \<Rightarrow> 'k \<Rightarrow> bool" where
  "map_has m k = (map_get m k \<noteq> None)"

fun map_set :: "('k \<times> 'v) list \<Rightarrow> 'k \<Rightarrow> 'v \<Rightarrow> ('k \<times> 'v) list" where
  "map_set [] k v = [(k, v)]"
| "map_set ((k', v') # m) k v = (if k' = k then (k, v) # m else (k', v') # map_set m k v)"

definition map_delete :: "('k \<times> 'v) list \<Rightarrow> 'k \<Rightarrow> ('k \<times> 'v) list" where
  "map_delete m k = filter (\<lambda>entry. fst entry \<noteq> k) m"

text \<open>
  \<^verbatim>\<open>!x\<close> on an optional string: \<^verbatim>\<open>undefined\<close> and the empty string are falsy.
\<close>

definition present :: "string option \<Rightarrow> bool" where
  "present x = (case x of None \<Rightarrow> False | Some v \<Rightarrow> v \<noteq> [])"

subsection \<open>Sending\<close>

text \<open>
  \<^verbatim>\<open>ws.send\<close> on a socket of the server does not throw: it hands the frame to a
  transport that is open and drops it otherwise. The log \<open>sent\<close> records the call
  itself, with the socket and the frame.
\<close>

definition ws_send :: "server \<Rightarrow> socket \<Rightarrow> event \<Rightarrow> server" where
  "ws_send s ws ev = s\<lparr>sent := sent s @ [(ws, ev)]\<rparr>"

definition send_if_open :: "event \<Rightarrow> string \<times> RoomMember \<Rightarrow> server \<Rightarrow> server" where
  "send_if_open message entry s =
     (if readyState (sockets s (member_ws (snd entry))) = OPEN
      then ws_send s (member_ws (snd entry)) message else s)"

definition broadcastToRoom :: "server \<Rightarrow> string \<Rightarrow> event \<Rightarrow> server" where
  "broadcastToRoom s roomId message =
     (case map_get (rooms s) roomId of
        None \<Rightarrow> s
      | Some room \<Rightarrow> fold (send_if_open message) room s)"

subsection \<open>handleJoin\<close>

text \<open>
  An \<^verbatim>\<open>async\<close> handler runs up to its \<^verbatim>\<open>await\<close>, is suspended while other
  events are handled, and goes on in the state that it then finds. \<open>Done\<close> is a handler
  that returned without suspending, \<open>Await\<close> one that is suspended, with the local
  variables it keeps.
\<close>

datatype 'k step = Done server | Await server 'k

definition handleJoin_begin :: "server \<Rightarrow> socket \<Rightarrow> ChatMessage \<Rightarrow> (string \<times> string \<times> string) step" where
  "handleJoin_begin s ws message =
     (case (msg_roomId message, msg_userId message, msg_nickname message) of
        (Some roomId, Some userId, Some nickname) \<Rightarrow>
          if roomId = [] \<or> userId = [] \<or> nickname = [] then
            Done (ws_send s ws (EvError ''Missing required fields''))
          else
            (let rooms1 = (if map_has (rooms s) roomId then rooms s
                           else map_set (rooms s) roomId []);
                 room = (case map_get rooms1 roomId of None \<Rightarrow> [] | Some r \<Rightarrow> r);
                 room' = map_set room userId
                           \<lparr> member_ws = ws, member_userId = userId, member_nickname = nickname \<rparr>;
                 bound = (sockets s ws)
                           \<lparr> ws_roomId := Some roomId, ws_userId := Some userId,
                             ws_nickname := Some nickname \<rparr>
             in Await
                  (s\<lparr> rooms := map_set rooms1 roomId room',
                      sockets := (sockets s)(ws := bound),
                      requests := requests s @ [SelectRecent roomId 50] \<rparr>)
                  (roomId, userId, nickname))
      | _ \<Rightarrow> Done (ws_send s ws (EvError ''Missing required fields'')))"

definition handleJoin_resume ::
  "server \<Rightarrow> socket \<Rightarrow> string \<times> string \<times> string \<Rightarrow> stored_message list response settled \<Rightarrow> time \<Rightarrow> server"
where
  "handleJoin_resume s ws kept answer now =
     (case kept of (roomId, userId, nickname) \<Rightarrow>
        (case answer of
           Rejected \<Rightarrow> ws_send s ws (EvError ''Failed to join room'')
         | Resolved r \<Rightarrow>
             broadcastToRoom
               (case error r of
                  Some e \<Rightarrow> ws_send s ws (EvError ''Could not load message history'')
                | None \<Rightarrow>
                    ws_send s ws
                      (EvHistory (case data r of None \<Rightarrow> [] | Some messages \<Rightarrow> rev messages)))
               roomId (EvJoin userId nickname now)))"

definition handleJoin ::
  "server \<Rightarrow> socket \<Rightarrow> ChatMessage \<Rightarrow> stored_message list response settled \<Rightarrow> time \<Rightarrow> server"
where
  "handleJoin s ws message answer now =
     (case handleJoin_begin s ws message of
        Done s' \<Rightarrow> s'
      | Await s' kept \<Rightarrow> handleJoin_resume s' ws kept answer now)"

subsection \<open>handleLeave\<close>

definition handleLeave :: "server \<Rightarrow> socket \<Rightarrow> ChatMessage \<Rightarrow> time \<Rightarrow> server" where
  "handleLeave s ws message now =
     (let roomId = ws_roomId (sockets s ws);
          userId = ws_userId (sockets s ws);
          nickname = ws_nickname (sockets s ws)
      in if present roomId \<and> present userId then
           (case (roomId, userId) of
              (Some r, Some u) \<Rightarrow>
                (case map_get (rooms s) r of
                   None \<Rightarrow> s
                 | Some room \<Rightarrow>
                     if map_has room u then
                       broadcastToRoom
                         (s\<lparr> rooms := map_set (rooms s) r (map_delete room u) \<rparr>)
                         r (EvLeave u nickname now)
                     else s)
            | _ \<Rightarrow> s)
         else s)"

subsection \<open>handleChatMessage\<close>

text \<open>
  A handler that completes, or throws, in a state.
\<close>

datatype completion = Normal server | Threw server

definition handleChatMessage_begin ::
  "server \<Rightarrow> socket \<Rightarrow> ChatMessage \<Rightarrow> (string \<times> string \<times> string \<times> string option) step"
where
  "handleChatMessage_begin s ws message =
     (let roomId = ws_roomId (sockets s ws);
          userId = ws_userId (sockets s ws);
          nickname = ws_nickname (sockets s ws)
      in case (msg_content message, roomId, userId) of
           (Some c, Some r, Some u) \<Rightarrow>
             if c = [] \<or> r = [] \<or> u = [] then
               Done (ws_send s ws (EvError ''Missing required fields''))
             else Await s (c, r, u, nickname)
         | _ \<Rightarrow> Done (ws_send s ws (EvError ''Missing required fields'')))"

definition handleChatMessage_resume ::
  "server \<Rightarrow> socket \<Rightarrow> string \<times> string \<times> string \<times> string option \<Rightarrow> hf_call \<Rightarrow>
   stored_message response settled \<Rightarrow> time \<Rightarrow> completion"
where
  "handleChatMessage_resume s ws kept call answer now =
     (case kept of (c, roomId, userId, nickname) \<Rightarrow>
        (case detectCrisis c call of
           Raised \<Rightarrow> Threw s
         | Returned crisisResult \<Rightarrow>
             (let s1 = s\<lparr> requests := requests s @
                          [Insert \<lparr> new_room_id = roomId, new_user_id = userId,
                                    new_nickname = nickname, new_content = c,
                                    new_risk_level = riskLevel crisisResult \<rparr>] \<rparr>
              in case answer of
                   Rejected \<Rightarrow> Threw s1
                 | Resolved r \<Rightarrow>
                     (case error r of
                        Some e \<Rightarrow> Normal (ws_send s1 ws (EvError ''Failed to save message''))
                      | None \<Rightarrow>
                          (case data r of
                             None \<Rightarrow> Threw s1
                           | Some savedMessage \<Rightarrow>
                               (let s2 = broadcastToRoom s1 roomId
                                     (EvChat (user_id savedMessage)
                                        (if present (row_nickname savedMessage)
                                         then row_nickname savedMessage else nickname)
                                        (content savedMessage)
                                        (created_at savedMessage)
                                        (risk_level savedMessage))
                                in Normal
                                     (if isCrisis crisisResult \<and> riskLevel crisisResult \<noteq> RNone
                                      then ws_send s2 ws
                                             (EvCrisisAlert (riskLevel crisisResult)
                                                (getCrisisResourcesMessage (riskLevel crisisResult))
                                                now)
                                      else s2)))))))"

definition handleChatMessage ::
  "server \<Rightarrow> socket \<Rightarrow> ChatMessage \<Rightarrow> hf_call \<Rightarrow> stored_message response settled \<Rightarrow> time \<Rightarrow> completion"
where
  "handleChatMessage s ws message call answer now =
     (case handleChatMessage_begin s ws message of
        Done s' \<Rightarrow> Normal s'
      | Await s' kept \<Rightarrow> handleChatMessage_resume s' ws kept call answer now)"

subsection \<open>handleDisconnect\<close>

definition handleDisconnect :: "server \<Rightarrow> socket \<Rightarrow> server" where
  "handleDisconnect s ws =
     (let roomId = ws_roomId (sockets s ws);
          userId = ws_userId (sockets s ws)
      in if present roomId \<and> present userId then
           (case (roomId, userId) of
              (Some r, Some u) \<Rightarrow>
                (case map_get (rooms s) r of
                   None \<Rightarrow> s
                 | Some room \<Rightarrow>
                     if map_has room u then
                       (case map_get room u of
                          None \<Rightarrow> s
                        | Some member \<Rightarrow>
                            if member_ws member = ws
                            then s\<lparr> rooms := map_set (rooms s) r (map_delete room u) \<rparr>
                            else s)
                     else s)
            | _ \<Rightarrow> s)
         else s)"

subsection \<open>Dispatch, connection events and the heartbeat\<close>

text \<open>
  What the outside answers while one frame is handled: the emotion service, the storage
  on \<^verbatim>\<open>insert\<close> and on \<^verbatim>\<open>select\<close>, and the clock.
\<close>

record environment =
  env_hf :: hf_call
  env_insert :: "stored_message response settled"
  env_select :: "stored_message list response settled"
  env_now :: time

definition handleMessage :: "server \<Rightarrow> socket \<Rightarrow> ChatMessage \<Rightarrow> environment \<Rightarrow> completion" where
  "handleMessage s ws message env =
     (if msg_type message = ''join'' then
        Normal (handleJoin s ws message (env_select env) (env_now env))
      else if msg_type message = ''leave'' then
        Normal (handleLeave s ws message (env_now env))
      else if msg_type message = ''chat'' then
        handleChatMessage s ws message (env_hf env) (env_insert env) (env_now env)
      else Normal (ws_send s ws (EvError ''Unknown message type'')))"

text \<open>
  The listener of \<^verbatim>\<open>message\<close>: whatever is thrown while the frame is parsed or handled
  is caught and answered with a private error, and the connection stays open.
\<close>

definition caught :: "completion \<Rightarrow> socket \<Rightarrow> server" where
  "caught result ws =
     (case result of
        Normal s' \<Rightarrow> s'
      | Threw s' \<Rightarrow> ws_send s' ws (EvError ''Invalid message format''))"

definition onMessage :: "server \<Rightarrow> socket \<Rightarrow> inbound \<Rightarrow> environment \<Rightarrow> server" where
  "onMessage s ws frame env =
     (case frame of
        Unparseable \<Rightarrow> ws_send s ws (EvError ''Invalid message format'')
      | Frame message \<Rightarrow> caught (handleMessage s ws message env) ws)"

text \<open>
  A new connection is open, alive and unbound, and the server tracks it in
  \<^verbatim>\<open>wss.clients\<close>. \<^verbatim>\<open>terminate\<close> takes the transport out of the open state; the
  \<^verbatim>\<open>close\<close> event follows, for a terminated socket as for one that the client closed,
  and its listener is \<open>handleDisconnect\<close>.
\<close>

definition handleConnection :: "server \<Rightarrow> socket \<Rightarrow> server" where
  "handleConnection s ws =
     s\<lparr> sockets := (sockets s)(ws :=
            \<lparr> readyState = OPEN, isAlive = True, ws_roomId = None, ws_userId = None,
              ws_nickname = None \<rparr>),
        clients := clients s @ [ws] \<rparr>"

definition onPong :: "server \<Rightarrow> socket \<Rightarrow> server" where
  "onPong s ws = s\<lparr> sockets := (sockets s)(ws := (sockets s ws)\<lparr> isAlive := True \<rparr>) \<rparr>"

definition terminate :: "server \<Rightarrow> socket \<Rightarrow> server" where
  "terminate s ws = s\<lparr> sockets := (sockets s)(ws := (sockets s ws)\<lparr> readyState := CLOSING \<rparr>) \<rparr>"

definition heartbeat_client :: "socket \<Rightarrow> server \<Rightarrow> server" where
  "heartbeat_client ws s =
     (if isAlive (sockets s ws) = False then terminate s ws
      else s\<lparr> sockets := (sockets s)(ws := (sockets s ws)\<lparr> isAlive := False \<rparr>) \<rparr>)"

definition heartbeat :: "server \<Rightarrow> server" where
  "heartbeat s = fold heartbeat_client (clients s) s"

definition onClose :: "server \<Rightarrow> socket \<Rightarrow> server" where
  "onClose s ws =
     handleDisconnect
       (s\<lparr> sockets := (sockets s)(ws := (sockets s ws)\<lparr> readyState := CLOSED \<rparr>),
           clients := filter (\<lambda>c. c \<noteq> ws) (clients s) \<rparr>)
       ws"

definition initial :: server where
  "initial =
     \<lparr> rooms = [],
       sockets = (\<lambda>ws. \<lparr> readyState = CLOSED, isAlive = False, ws_roomId = None,
                         ws_userId = None, ws_nickname = None \<rparr>),
       clients = [], sent = [], requests = [] \<rparr>"

text \<open>
  One event of the server, each handled to its end before the next, and the state after
  a sequence of events from the start.
\<close>

datatype server_event =
    Connected socket
  | Received socket inbound environment
  | Ponged socket
  | Tick
  | Closed socket

fun handle_event :: "server \<Rightarrow> server_event \<Rightarrow> server" where
  "handle_event s (Connected ws) = handleConnection s ws"
| "handle_event s (Received ws frame env) = onMessage s ws frame env"
| "handle_event s (Ponged ws) = onPong s ws"
| "handle_event s Tick = heartbeat s"
| "handle_event s (Closed ws) = onClose s ws"

definition run :: "server_event list \<Rightarrow> server" where
  "run events = foldl handle_event initial events"

subsection \<open>The history query\<close>

text \<open>
  The query that \<open>handleJoin\<close> builds,
  \<^verbatim>\<open>.eq('room_id', roomId).order('created_at', { ascending: false }).limit(50)\<close>, read
  on a table that is the list of its rows: the rows of the room, newest first, cut after
  \<open>n\<close> rows.
\<close>

definition listRecent :: "stored_message list \<Rightarrow> string \<Rightarrow> nat \<Rightarrow> stored_message list" where
  "listRecent table roomId n =
     take n (rev (sort_key created_at (filter (\<lambda>m. room_id m = roomId) table)))"

subsection \<open>The registry invariant\<close>

text \<open>
  Each room id and, in a room, each user id is a key once, and a member is stored under
  its own user id. \<open>memberships\<close> lists the entries of the registry for one identity.
\<close>

definition room_inv :: "(string \<times> RoomMember) list \<Rightarrow> bool" where
  "room_inv room =
     (distinct (map fst room) \<and> list_all (\<lambda>entry. member_userId (snd entry) = fst entry) room)"

definition registry_inv :: "server \<Rightarrow> bool" where
  "registry_inv s = (distinct (map fst (rooms s)) \<and> list_all (\<lambda>entry. room_inv (snd entry)) (rooms s))"

definition memberships :: "server \<Rightarrow> string \<Rightarrow> string \<Rightarrow> RoomMember list" where
  "memberships s roomId userId =
     map snd
       (filter (\<lambda>entry. fst entry = userId)
          (concat (map snd (filter (\<lambda>entry. fst entry = roomId) (rooms s)))))"

text \<open>
  The registry after a join of \<open>(r, u, n)\<close> on socket \<open>ws\<close>: the member is set in the
  room's map, which is the old one, or a new one when the room was unknown.
\<close>

definition joined_rooms ::
  "(string \<times> (string \<times> RoomMember) list) list \<Rightarrow> socket \<Rightarrow> string \<Rightarrow> string \<Rightarrow> string \<Rightarrow>
   (string \<times> (string \<times> RoomMember) list) list"
where
  "joined_rooms rs ws r u n =
     map_set rs r
       (map_set (case map_get rs r of None \<Rightarrow> [] | Some room \<Rightarrow> room) u
          \<lparr> member_ws = ws, member_userId = u, member_nickname = n \<rparr>)"

text \<open>
  The members of a room whose transport is open, in the order of the room's map: the
  audience of a broadcast.
\<close>

definition audience :: "server \<Rightarrow> string \<Rightarrow> socket list" where
  "audience s roomId =
     (case map_get (rooms s) roomId of
        None \<Rightarrow> []
      | Some room \<Rightarrow>
          filter (\<lambda>ws. readyState (sockets s ws) = OPEN) (map (\<lambda>entry. member_ws (snd entry)) room))"

subsection \<open>Shapes of an answer of the emotion service\<close>

text \<open>
  \<open>typed_body\<close>: the body is what the source declares it to be, an array of arrays of
  items that carry a label and a score. \<open>no_signal\<close>: the service is not configured,
  cannot be reached, answers with a status that is not OK or with a body that is not
  JSON, or the body holds nothing to read. An entry holds nothing to read when it is
  \<^verbatim>\<open>null\<close>, a boolean, a number, an empty string, an empty array, or an object whose
  \<^verbatim>\<open>length\<close> is absent or not above 0. A body holds nothing to read when it is
  \<^verbatim>\<open>null\<close>, a boolean, a number, an empty string, an empty array, an array whose
  first entry is such an entry, or an object whose property \<^verbatim>\<open>0\<close> is absent or such
  an entry.
\<close>

fun typed_item :: "emotion_item \<Rightarrow> bool" where
  "typed_item (Item (Some l) (Some x)) = True"
| "typed_item (Item None x) = False"
| "typed_item (Item (Some l) None) = False"
| "typed_item ItemNull = False"

fun typed_entry :: "js_value \<Rightarrow> bool" where
  "typed_entry (JItems items) = list_all typed_item items"
| "typed_entry JNull = False"
| "typed_entry (JBool b) = False"
| "typed_entry (JNum x) = False"
| "typed_entry (JStr s) = False"
| "typed_entry (JObj l) = False"

fun typed_body :: "hf_body \<Rightarrow> bool" where
  "typed_body (BArr xs) = list_all typed_entry xs"
| "typed_body BNull = False"
| "typed_body (BBool b) = False"
| "typed_body (BNum x) = False"
| "typed_body (BStr s) = False"
| "typed_body (BObj p) = False"

fun blank_entry :: "js_value \<Rightarrow> bool" where
  "blank_entry (JStr s) = (s = [])"
| "blank_entry (JItems items) = (items = [])"
| "blank_entry JNull = True"
| "blank_entry (JBool b) = True"
| "blank_entry (JNum x) = True"
| "blank_entry (JObj l) = (case l of None \<Rightarrow> True | Some p \<Rightarrow> \<not> to_number p > 0)"

fun blank_body :: "hf_body \<Rightarrow> bool" where
  "blank_body (BStr s) = (s = [])"
| "blank_body (BArr []) = True"
| "blank_body (BArr (x # xs)) = blank_entry x"
| "blank_body BNull = True"
| "blank_body (BBool b) = True"
| "blank_body (BNum x) = True"
| "blank_body (BObj p) = (case p of None \<Rightarrow> True | Some v \<Rightarrow> blank_entry v)"

fun no_signal :: "hf_call \<Rightarrow> bool" where
  "no_signal (OkBody b) = blank_body b"
| "no_signal NoToken = True"
| "no_signal FetchRejected = True"
| "no_signal NotOk = True"
| "no_signal BadJson = True"

subsection \<open>Reading the logs\<close>

fun is_chat :: "event \<Rightarrow> bool" where
  "is_chat (EvChat u n c t l) = True"
| "is_chat (EvError m) = False"
| "is_chat (EvHistory ms) = False"
| "is_chat (EvJoin u n t) = False"
| "is_chat (EvLeave u n t) = False"
| "is_chat (EvCrisisAlert l m t) = False"

fun is_alert :: "event \<Rightarrow> bool" where
  "is_alert (EvCrisisAlert l m t) = True"
| "is_alert (EvError m) = False"
| "is_alert (EvHistory ms) = False"
| "is_alert (EvJoin u n t) = False"
| "is_alert (EvLeave u n t) = False"
| "is_alert (EvChat u n c t l) = False"

fun is_history :: "event \<Rightarrow> bool" where
  "is_history (EvHistory ms) = True"
| "is_history (EvError m) = False"
| "is_history (EvJoin u n t) = False"
| "is_history (EvLeave u n t) = False"
| "is_history (EvChat u n c t l) = False"
| "is_history (EvCrisisAlert l m t) = False"

fun is_leave :: "event \<Rightarrow> bool" where
  "is_leave (EvLeave u n t) = True"
| "is_leave (EvError m) = False"
| "is_leave (EvHistory ms) = False"
| "is_leave (EvJoin u n t) = False"
| "is_leave (EvChat u n c t l) = False"
| "is_leave (EvCrisisAlert l m t) = False"

text \<open>
  The storage has the message: \<^verbatim>\<open>insert\<close> was answered with the saved row and without
  an error. The insert is only issued once the classifier has returned.
\<close>

definition insert_succeeded :: "stored_message response settled \<Rightarrow> bool" where
  "insert_succeeded answer =
     (case answer of Rejected \<Rightarrow> False | Resolved r \<Rightarrow> error r = None \<and> data r \<noteq> None)"

definition persisted :: "string \<Rightarrow> hf_call \<Rightarrow> stored_message response settled \<Rightarrow> bool" where
  "persisted c call answer = (detectCrisis c call \<noteq> Raised \<and> insert_succeeded answer)"

text \<open>
  The \<open>chat\<close> event that the server builds from a saved row, for a sender whose stored
  nickname is \<open>nickname\<close>.
\<close>

definition chat_event :: "stored_message \<Rightarrow> string option \<Rightarrow> event" where
  "chat_event savedMessage nickname =
     EvChat (user_id savedMessage)
       (if present (row_nickname savedMessage) then row_nickname savedMessage else nickname)
       (content savedMessage) (created_at savedMessage) (risk_level savedMessage)"

text \<open>
  What a suspended \<open>handleChatMessage\<close>, once it goes on in state \<open>s\<close>, and the listener
  around it send, listed by the outcome of the classifier and of the storage.
\<close>

definition chat_replies ::
  "server \<Rightarrow> socket \<Rightarrow> string \<times> string \<times> string \<times> string option \<Rightarrow> hf_call \<Rightarrow>
   stored_message response settled \<Rightarrow> time \<Rightarrow> (socket \<times> event) list"
where
  "chat_replies s ws kept call answer now =
     (case kept of (c, r, u, n) \<Rightarrow>
        (case detectCrisis c call of
           Raised \<Rightarrow> [(ws, EvError ''Invalid message format'')]
         | Returned v \<Rightarrow>
             (case answer of
                Rejected \<Rightarrow> [(ws, EvError ''Invalid message format'')]
              | Resolved a \<Rightarrow>
                  (case error a of
                     Some e \<Rightarrow> [(ws, EvError ''Failed to save message'')]
                   | None \<Rightarrow>
                       (case data a of
                          None \<Rightarrow> [(ws, EvError ''Invalid message format'')]
                        | Some savedMessage \<Rightarrow>
                            map (\<lambda>w. (w, chat_event savedMessage n)) (audience s r) @
                            (if isCrisis v \<and> riskLevel v \<noteq> RNone
                             then [(ws, EvCrisisAlert (riskLevel v)
                                          (getCrisisResourcesMessage (riskLevel v)) now)]
                             else []))))))"

text \<open>
  The tiers of the resource message, by what the text holds: the urgent tier reminds of
  the emergency services, lists the hotlines and asks to reach a professional
  immediately; the supportive tier lists the hotlines in the softer framing.
\<close>

definition urgent_tier :: "string \<Rightarrow> bool" where
  "urgent_tier m =
     (includes_str m ''emergency services'' \<and> includes_str m ''Crisis Hotlines''
      \<and> includes_str m ''crisis professional immediately'')"

definition supportive_tier :: "string \<Rightarrow> bool" where
  "supportive_tier m =
     (includes_str m ''Crisis Hotlines'' \<and> includes_str m ''consider reaching out''
      \<and> \<not> includes_str m ''immediately'')"

subsection \<open>Example frames and states\<close>

definition join_frame :: "string \<Rightarrow> string \<Rightarrow> string \<Rightarrow> ChatMessage" where
  "join_frame r u n =
     \<lparr> msg_type = ''join'', msg_roomId = Some r, msg_userId = Some u, msg_nickname = Some n,
       msg_content = None \<rparr>"

definition chat_frame :: "string \<Rightarrow> ChatMessage" where
  "chat_frame c =
     \<lparr> msg_type = ''chat'', msg_roomId = None, msg_userId = None, msg_nickname = None,
       msg_content = Some c \<rparr>"

definition leave_frame :: ChatMessage where
  "leave_frame =
     \<lparr> msg_type = ''leave'', msg_roomId = None, msg_userId = None, msg_nickname = None,
       msg_content = None \<rparr>"

definition no_history :: "stored_message list response settled" where
  "no_history = Resolved \<lparr> data = Some [], error = None \<rparr>"

definition saved_row :: "string \<Rightarrow> string \<Rightarrow> string \<Rightarrow> string \<Rightarrow> risk_level \<Rightarrow> time \<Rightarrow> stored_message" where
  "saved_row r u n c l t =
     \<lparr> room_id = r, user_id = u, row_nickname = Some n, content = c, risk_level = l,
       created_at = t \<rparr>"

text \<open>
  Alice joins room \<open>r1\<close> as \<open>u1\<close> on socket 0; then Bob joins it as \<open>u2\<close> on socket 1.
\<close>

definition alice_in_room :: server where
  "alice_in_room =
     handleJoin (handleConnection initial 0) 0 (join_frame ''r1'' ''u1'' ''Alice'') no_history 1"

definition alice_and_bob :: server where
  "alice_and_bob =
     handleJoin (handleConnection alice_in_room 1) 1 (join_frame ''r1'' ''u2'' ''Bob'') no_history 2"

definition chat_env :: "hf_call \<Rightarrow> stored_message response settled \<Rightarrow> time \<Rightarrow> environment" where
  "chat_env call answer now =
     \<lparr> env_hf = call, env_insert = answer, env_select = no_history, env_now = now \<rparr>"

definition saved_ok :: "string \<Rightarrow> risk_level \<Rightarrow> stored_message response settled" where
  "saved_ok c l = Resolved \<lparr> data = Some (saved_row ''r1'' ''u1'' ''Alice'' c l 7), error = None \<rparr>"

text \<open>
  Alice, in room \<open>r1\<close> on socket 0, sends a second join frame on the same socket, for
  room \<open>r2\<close>.
\<close>

definition alice_rebound :: server where
  "alice_rebound = handleJoin alice_in_room 0 (join_frame ''r2'' ''u1'' ''Alice'') no_history 2"

text \<open>
  A table with two messages of room \<open>r1\<close>, the newer one first, and one of room \<open>r2\<close>.
\<close>

definition example_table :: "stored_message list" where
  "example_table =
     [saved_row ''r1'' ''u1'' ''Alice'' ''second'' RNone 20,
      saved_row ''r2'' ''u9'' ''Zed'' ''elsewhere'' RNone 15,
      saved_row ''r1'' ''u2'' ''Bob'' ''first'' RNone 10]"
section \<open>Properties of the risk classifier\<close>

lemma startsWith_iff: "startsWith s k \<longleftrightarrow> (\<exists>b. s = k @ b)"
  by (induction s k rule: startsWith.induct) auto

lemma includes_str_iff: "includes_str s k \<longleftrightarrow> (\<exists>a b. s = a @ k @ b)"
proof (induction s)
  case Nil
  then show ?case by simp
next
  case (Cons c cs)
  show ?case
  proof
    assume "includes_str (c # cs) k"
    then consider "startsWith (c # cs) k" | "includes_str cs k" by auto
    then show "\<exists>a b. c # cs = a @ k @ b"
    proof cases
      case 1
      then obtain b where "c # cs = k @ b" by (auto simp: startsWith_iff)
      then have "c # cs = [] @ k @ b" by simp
      then show ?thesis by blast
    next
      case 2
      then obtain a b where "cs = a @ k @ b" using Cons.IH by auto
      then have "c # cs = (c # a) @ k @ b" by simp
      then show ?thesis by blast
    qed
  next
    assume "\<exists>a b. c # cs = a @ k @ b"
    then obtain a b where ab: "c # cs = a @ k @ b" by auto
    show "includes_str (c # cs) k"
    proof (cases a)
      case Nil
      then have "startsWith (c # cs) k" using ab by (auto simp: startsWith_iff)
      then show ?thesis by simp
    next
      case (Cons x a')
      then have "cs = a' @ k @ b" using ab by simp
      then have "includes_str cs k" using Cons.IH by auto
      then show ?thesis by simp
    qed
  qed
qed

lemma toLowerCase_append: "toLowerCase (a @ b) = toLowerCase a @ toLowerCase b"
  by (simp add: toLowerCase_def)

lemma risk_index [simp]:
  "indexOf RISK_LEVELS RNone = 0" "indexOf RISK_LEVELS Low = 1" "indexOf RISK_LEVELS Medium = 2"
  "indexOf RISK_LEVELS High = 3" "indexOf RISK_LEVELS Critical = 4"
  by (simp_all add: RISK_LEVELS_def)

lemma risk_index_le4: "indexOf RISK_LEVELS l \<le> 4"
  by (cases l) simp_all

lemma risk_index_ge0: "0 \<le> indexOf RISK_LEVELS l"
  by (cases l) simp_all

lemma risk_index_inj: "indexOf RISK_LEVELS a = indexOf RISK_LEVELS b \<Longrightarrow> a = b"
  by (cases a; cases b) simp_all

lemma scan_keyword_mono:
  "indexOf RISK_LEVELS (snd acc) \<le> indexOf RISK_LEVELS (snd (scan_keyword lm level kw acc))"
  by (cases acc) (simp add: scan_keyword_def Let_def)

lemma scan_keyword_hit:
  "includes_str lm kw \<Longrightarrow> indexOf RISK_LEVELS level \<le> indexOf RISK_LEVELS (snd (scan_keyword lm level kw acc))"
  by (cases acc) (simp add: scan_keyword_def Let_def)

lemma fold_scan_keyword_mono:
  "indexOf RISK_LEVELS (snd acc) \<le> indexOf RISK_LEVELS (snd (fold (scan_keyword lm level) kws acc))"
proof (induction kws arbitrary: acc)
  case Nil
  then show ?case by simp
next
  case (Cons kw kws)
  have "indexOf RISK_LEVELS (snd acc) \<le> indexOf RISK_LEVELS (snd (scan_keyword lm level kw acc))"
    by (rule scan_keyword_mono)
  also have "\<dots> \<le> indexOf RISK_LEVELS (snd (fold (scan_keyword lm level) kws (scan_keyword lm level kw acc)))"
    by (rule Cons.IH)
  finally show ?case by simp
qed

lemma fold_scan_keyword_hit:
  "kw \<in> set kws \<Longrightarrow> includes_str lm kw \<Longrightarrow>
   indexOf RISK_LEVELS level \<le> indexOf RISK_LEVELS (snd (fold (scan_keyword lm level) kws acc))"
proof (induction kws arbitrary: acc)
  case Nil
  then show ?case by simp
next
  case (Cons k kws)
  show ?case
  proof (cases "k = kw")
    case True
    have "indexOf RISK_LEVELS level \<le> indexOf RISK_LEVELS (snd (scan_keyword lm level k acc))"
      using True Cons.prems(2) by (simp add: scan_keyword_hit)
    also have "\<dots> \<le> indexOf RISK_LEVELS (snd (fold (scan_keyword lm level) kws (scan_keyword lm level k acc)))"
      by (rule fold_scan_keyword_mono)
    finally show ?thesis by simp
  next
    case False
    then have "kw \<in> set kws" using Cons.prems(1) by simp
    then show ?thesis using Cons.IH Cons.prems(2) by simp
  qed
qed

lemma scan_level_mono:
  "indexOf RISK_LEVELS (snd acc) \<le> indexOf RISK_LEVELS (snd (scan_level lm level acc))"
  unfolding scan_level_def by (rule fold_scan_keyword_mono)

lemma scan_level_hit:
  "kw \<in> set (CRISIS_KEYWORDS level) \<Longrightarrow> includes_str lm kw \<Longrightarrow>
   indexOf RISK_LEVELS level \<le> indexOf RISK_LEVELS (snd (scan_level lm level acc))"
  unfolding scan_level_def by (rule fold_scan_keyword_hit)

lemma fold_scan_level_mono:
  "indexOf RISK_LEVELS (snd acc) \<le> indexOf RISK_LEVELS (snd (fold (scan_level lm) ls acc))"
proof (induction ls arbitrary: acc)
  case Nil
  then show ?case by simp
next
  case (Cons l ls)
  have "indexOf RISK_LEVELS (snd acc) \<le> indexOf RISK_LEVELS (snd (scan_level lm l acc))"
    by (rule scan_level_mono)
  also have "\<dots> \<le> indexOf RISK_LEVELS (snd (fold (scan_level lm) ls (scan_level lm l acc)))"
    by (rule Cons.IH)
  finally show ?case by simp
qed

lemma fold_scan_level_hit:
  "level \<in> set ls \<Longrightarrow> kw \<in> set (CRISIS_KEYWORDS level) \<Longrightarrow> includes_str lm kw \<Longrightarrow>
   indexOf RISK_LEVELS level \<le> indexOf RISK_LEVELS (snd (fold (scan_level lm) ls acc))"
proof (induction ls arbitrary: acc)
  case Nil
  then show ?case by simp
next
  case (Cons l ls)
  show ?case
  proof (cases "l = level")
    case True
    have "indexOf RISK_LEVELS level \<le> indexOf RISK_LEVELS (snd (scan_level lm l acc))"
      using True Cons.prems(2,3) by (simp add: scan_level_hit)
    also have "\<dots> \<le> indexOf RISK_LEVELS (snd (fold (scan_level lm) ls (scan_level lm l acc)))"
      by (rule fold_scan_level_mono)
    finally show ?thesis by simp
  next
    case False
    then have "level \<in> set ls" using Cons.prems(1) by simp
    then show ?thesis using Cons.IH Cons.prems(2,3) by simp
  qed
qed

lemma riskLevel_analyzeWithKeywords:
  "riskLevel (analyzeWithKeywords message) =
     snd (fold (scan_level (toLowerCase message)) levels ([], RNone))"
  by (simp add: analyzeWithKeywords_def Let_def)

lemma keyword_hit_level:
  assumes "level \<in> set levels" and "kw \<in> set (CRISIS_KEYWORDS level)"
    and "includes_str (toLowerCase message) kw"
  shows "indexOf RISK_LEVELS level \<le> indexOf RISK_LEVELS (riskLevel (analyzeWithKeywords message))"
  unfolding riskLevel_analyzeWithKeywords using assms by (rule fold_scan_level_hit)

lemma critical_of_index: "4 \<le> indexOf RISK_LEVELS l \<Longrightarrow> l = Critical"
  by (cases l) simp_all

lemma analyzeWithKeywords_critical:
  assumes "kw \<in> set (CRISIS_KEYWORDS Critical)" and "toLowerCase u = kw"
  shows "riskLevel (analyzeWithKeywords (pre @ u @ post)) = Critical"
proof -
  have "toLowerCase (pre @ u @ post) = toLowerCase pre @ kw @ toLowerCase post"
    using assms(2) by (simp add: toLowerCase_append)
  then have "includes_str (toLowerCase (pre @ u @ post)) kw"
    unfolding includes_str_iff by blast
  moreover have "Critical \<in> set levels" by (simp add: levels_def)
  ultimately have "indexOf RISK_LEVELS Critical \<le>
      indexOf RISK_LEVELS (riskLevel (analyzeWithKeywords (pre @ u @ post)))"
    using assms(1) keyword_hit_level by blast
  then show ?thesis by (simp add: critical_of_index)
qed

lemma riskLevel_merge_verdict:
  "riskLevel (merge_verdict message detected ai) =
     (if indexOf RISK_LEVELS (riskLevel (analyzeWithKeywords message)) > indexOf RISK_LEVELS (fst ai)
      then riskLevel (analyzeWithKeywords message) else fst ai)"
  by (simp add: merge_verdict_def Let_def)

lemma merge_verdict_critical:
  "riskLevel (analyzeWithKeywords message) = Critical \<Longrightarrow>
   riskLevel (merge_verdict message detected ai) = Critical"
  using risk_index_le4 [of "fst ai"]
  by (auto simp: riskLevel_merge_verdict intro: critical_of_index)

lemma detectCrisis_cases:
  assumes "detectCrisis message call = Returned v"
  shows "v = analyzeWithKeywords message \<or> (\<exists>detected ai. v = merge_verdict message detected ai)"
  using assms
  by (auto simp: detectCrisis_def split: option.splits if_splits js_value.splits attempt.splits)

lemma map_labels_typed: "list_all typed_item items \<Longrightarrow> \<exists>ls. map_labels items = Returned ls"
proof (induction items)
  case Nil
  then show ?case by simp
next
  case (Cons e es)
  then obtain ls where "map_labels es = Returned ls" by auto
  moreover obtain l x where "e = Item (Some l) (Some x)"
    using Cons.prems by (cases e rule: typed_item.cases) auto
  ultimately show ?case by simp
qed

lemma score_emotions_typed:
  "list_all typed_item items \<Longrightarrow> \<exists>acc'. score_emotions items acc = Returned acc'"
proof (induction items arbitrary: acc)
  case Nil
  then show ?case by simp
next
  case (Cons e es)
  obtain l x where e: "e = Item (Some l) (Some x)"
    using Cons.prems by (cases e rule: typed_item.cases) auto
  obtain r m where acc: "acc = (r, m)" by (cases acc)
  obtain acc1 where "score_emotion e acc = Returned acc1"
    unfolding e acc by simp
  moreover have "\<exists>acc'. score_emotions es acc1 = Returned acc'"
    using Cons.IH Cons.prems by simp
  ultimately show ?case by auto
qed

lemma blank_entry_length:
  "blank_entry v \<Longrightarrow> (case js_length v of None \<Rightarrow> True | Some n \<Rightarrow> \<not> n > 0)"
  by (cases v) (simp_all split: option.splits)

lemma blank_body_first_entry:
  "blank_body b \<Longrightarrow>
   first_entry b = Raised \<or> first_entry b = Returned None
   \<or> (\<exists>v. first_entry b = Returned (Some v) \<and> blank_entry v)"
  by (cases b rule: blank_body.cases) (simp_all split: option.splits)

lemma detectCrisis_no_signal:
  assumes "no_signal call"
  shows "detectCrisis text call = Returned (analyzeWithKeywords text)"
proof (cases call)
  case (OkBody b)
  then have "blank_body b" using assms by simp
  from blank_body_first_entry [OF this]
  have "analyzeWithHuggingFace text (OkBody b) = None
      \<or> (\<exists>v. analyzeWithHuggingFace text (OkBody b) = Some v \<and> blank_entry v)"
    by (auto simp: analyzeWithHuggingFace_def)
  then show ?thesis
  proof
    assume "analyzeWithHuggingFace text (OkBody b) = None"
    then show ?thesis unfolding OkBody by (simp add: detectCrisis_def)
  next
    assume "\<exists>v. analyzeWithHuggingFace text (OkBody b) = Some v \<and> blank_entry v"
    then obtain v where v: "analyzeWithHuggingFace text (OkBody b) = Some v" "blank_entry v"
      by blast
    have "\<not> (case js_length v of None \<Rightarrow> False | Some n \<Rightarrow> n > 0)"
      using blank_entry_length [OF v(2)] by (simp split: option.splits)
    then show ?thesis unfolding OkBody using v(1) by (simp add: detectCrisis_def)
  qed
qed (simp_all add: detectCrisis_def analyzeWithHuggingFace_def)

lemma detectCrisis_typed:
  assumes "typed_body b"
  shows "\<exists>v. detectCrisis text (OkBody b) = Returned v"
proof (cases "no_signal (OkBody b)")
  case True
  then show ?thesis by (simp add: detectCrisis_no_signal)
next
  case False
  then obtain x xs where b: "b = BArr (x # xs)"
    using assms by (cases b rule: blank_body.cases) auto
  then obtain items where x: "x = JItems items" and items: "list_all typed_item items" "items \<noteq> []"
    using assms False by (cases x) auto
  obtain ls where ls: "map_labels items = Returned ls"
    using items(1) map_labels_typed by blast
  obtain ai where ai: "score_emotions items (RNone, 0) = Returned ai"
    using items(1) score_emotions_typed by blast
  show ?thesis
    using items(2) ls ai unfolding b x
    by (simp add: detectCrisis_def analyzeWithHuggingFace_def)
qed

text \<open>
  C4. A text that contains a critical-tier phrase, in any letter case, is classified as
  critical: by the keyword analysis alone, by every verdict that \<open>detectCrisis\<close>
  returns, whatever the emotion service answers, and in particular by the verdict that
  it does return when the service answers with a body of the declared type.
\<close>
theorem critical_phrase_gives_critical:
  assumes "kw \<in> set (CRISIS_KEYWORDS Critical)" and "toLowerCase u = kw"
    and "text = pre @ u @ post"
  shows "riskLevel (analyzeWithKeywords text) = Critical
       \<and> (\<forall>call v. detectCrisis text call = Returned v \<longrightarrow> riskLevel v = Critical)
       \<and> (\<forall>b. typed_body b \<longrightarrow> (\<exists>v. detectCrisis text (OkBody b) = Returned v \<and> riskLevel v = Critical))"
proof -
  have kwd: "riskLevel (analyzeWithKeywords text) = Critical"
    using assms by (simp add: analyzeWithKeywords_critical)
  have any: "riskLevel v = Critical" if "detectCrisis text call = Returned v" for call v
    using detectCrisis_cases [OF that] kwd by (auto simp: merge_verdict_critical)
  have typed: "\<exists>v. detectCrisis text (OkBody b) = Returned v \<and> riskLevel v = Critical"
    if "typed_body b" for b
    using detectCrisis_typed [OF that, of "text"] any by blast
  show ?thesis using kwd any typed by blast
qed

theorem critical_phrase_gives_critical_witness:
  "riskLevel (analyzeWithKeywords ''I WANT to Die'') = Critical
   \<and> riskLevel (analyzeWithKeywords ''i want to die'') = Critical
   \<and> (\<exists>v. detectCrisis ''I WANT to Die'' (OkBody (BArr [JItems [Item (Some ''joy'') (Some 0.9)]])) = Returned v
          \<and> riskLevel v = Critical)"
proof -
  have kw: "''want to die'' \<in> set (CRISIS_KEYWORDS Critical)" by simp
  have low: "toLowerCase ''WANT to Die'' = ''want to die''" by code_simp
  have low2: "toLowerCase ''want to die'' = ''want to die''" by code_simp
  have t: "''I WANT to Die'' = ''I '' @ ''WANT to Die'' @ []" by simp
  have t2: "''i want to die'' = ''i '' @ ''want to die'' @ []" by simp
  have ty: "typed_body (BArr [JItems [Item (Some ''joy'') (Some 0.9)]])" by simp
  show ?thesis
    using critical_phrase_gives_critical [OF kw low t] critical_phrase_gives_critical [OF kw low2 t2] ty
    by blast
qed

text \<open>
  What does hold of the fail-open: without a signal \<open>detectCrisis\<close> returns the
  keyword-only analysis, and on a body of the declared type it returns a verdict.
\<close>

lemma detectCrisis_guarded_failures:
  "(no_signal call \<longrightarrow> detectCrisis text call = Returned (analyzeWithKeywords text))
   \<and> (typed_body b \<longrightarrow> (\<exists>v. detectCrisis text (OkBody b) = Returned v))"
  using detectCrisis_no_signal detectCrisis_typed by blast

text \<open>
  C5 fails on the code. The emotion service answers with status OK and the malformed
  body \<^verbatim>\<open>[[null]]\<close>: \<open>analyzeWithHuggingFace\<close> hands the array \<^verbatim>\<open>[null]\<close> on, and
  \<open>detectCrisis\<close> throws while it reads the labels, outside every \<^verbatim>\<open>try\<close>, where the
  claim has it return the keyword-only analysis. The same happens on the bodies
  \<^verbatim>\<open>{"0": [null]}\<close>, \<^verbatim>\<open>[{"length": 1}]\<close> and \<^verbatim>\<open>"down"\<close>. For Alice's chat frame
  the listener answers with a private error; nothing is handed to the storage and
  nothing is broadcast.
\<close>

theorem detectCrisis_raises_on_malformed_body:
  "detectCrisis ''hello'' (OkBody (BArr [JItems [ItemNull]])) = Raised
   \<and> analyzeWithHuggingFace ''hello'' (OkBody (BArr [JItems [ItemNull]])) = Some (JItems [ItemNull])
   \<and> detectCrisis ''hello'' (OkBody (BObj (Some (JItems [ItemNull])))) = Raised
   \<and> detectCrisis ''hello'' (OkBody (BArr [JObj (Some (PNum 1))])) = Raised
   \<and> detectCrisis ''hello'' (OkBody (BStr ''down'')) = Raised
   \<and> sent (onMessage alice_in_room 0 (Frame (chat_frame ''hello''))
             (chat_env (OkBody (BArr [JItems [ItemNull]])) (saved_ok ''hello'' RNone) 3))
       = sent alice_in_room @ [(0, EvError ''Invalid message format'')]
   \<and> requests (onMessage alice_in_room 0 (Frame (chat_frame ''hello''))
             (chat_env (OkBody (BArr [JItems [ItemNull]])) (saved_ok ''hello'' RNone) 3))
       = requests alice_in_room"
  by code_simp

section \<open>Properties of the chat server\<close>

subsection \<open>Sending and broadcasting\<close>

lemma ws_send_fields [simp]:
  "rooms (ws_send s w e) = rooms s"
  "sockets (ws_send s w e) = sockets s"
  "clients (ws_send s w e) = clients s"
  "requests (ws_send s w e) = requests s"
  "sent (ws_send s w e) = sent s @ [(w, e)]"
  by (simp_all add: ws_send_def)

lemma audience_cong:
  "rooms s = rooms t \<Longrightarrow> sockets s = sockets t \<Longrightarrow> audience s r = audience t r"
  by (simp add: audience_def split: option.splits)

lemma fold_send_if_open_fields:
  "rooms (fold (send_if_open ev) room s) = rooms s
   \<and> sockets (fold (send_if_open ev) room s) = sockets s
   \<and> clients (fold (send_if_open ev) room s) = clients s
   \<and> requests (fold (send_if_open ev) room s) = requests s
   \<and> sent (fold (send_if_open ev) room s) =
       sent s @ map (\<lambda>w. (w, ev))
         (filter (\<lambda>w. readyState (sockets s w) = OPEN) (map (\<lambda>entry. member_ws (snd entry)) room))"
proof (induction room arbitrary: s)
  case Nil
  then show ?case by simp
next
  case (Cons entry room)
  show ?case
    using Cons.IH [of "send_if_open ev entry s"]
    by (simp add: send_if_open_def)
qed

lemma broadcastToRoom_fields [simp]:
  "rooms (broadcastToRoom s r ev) = rooms s"
  "sockets (broadcastToRoom s r ev) = sockets s"
  "clients (broadcastToRoom s r ev) = clients s"
  "requests (broadcastToRoom s r ev) = requests s"
  by (simp_all add: broadcastToRoom_def fold_send_if_open_fields split: option.splits)

lemma sent_broadcastToRoom:
  "sent (broadcastToRoom s r ev) = sent s @ map (\<lambda>w. (w, ev)) (audience s r)"
  by (simp add: broadcastToRoom_def audience_def fold_send_if_open_fields split: option.splits)

lemma audience_open_member:
  "w \<in> set (audience s r) \<longleftrightarrow>
     (\<exists>room entry. map_get (rooms s) r = Some room \<and> entry \<in> set room
        \<and> member_ws (snd entry) = w \<and> readyState (sockets s w) = OPEN)"
  by (force simp: audience_def split: option.splits)

lemma broadcast_only_open_members:
  assumes "(w, e) \<in> set (sent (broadcastToRoom s r ev))" and "(w, e) \<notin> set (sent s)"
  shows "e = ev \<and> readyState (sockets s w) = OPEN
       \<and> (\<exists>room entry. map_get (rooms s) r = Some room \<and> entry \<in> set room \<and> member_ws (snd entry) = w)"
  using assms by (fastforce simp: sent_broadcastToRoom audience_open_member)

subsection \<open>Chat frames\<close>

lemma sent_caught:
  "sent (caught result ws) =
     (case result of Normal s' \<Rightarrow> sent s' | Threw s' \<Rightarrow> sent s' @ [(ws, EvError ''Invalid message format'')])"
  by (simp add: caught_def split: completion.splits)

lemma audience_requests [simp]: "audience (s\<lparr>requests := q\<rparr>) r = audience s r"
  by (rule audience_cong) simp_all

lemma sent_chat_resume:
  "sent (caught (handleChatMessage_resume s ws kept call answer now) ws) =
     sent s @ chat_replies s ws kept call answer now"
  by (cases kept)
     (simp add: handleChatMessage_resume_def chat_replies_def sent_caught chat_event_def Let_def
        sent_broadcastToRoom
        split: attempt.splits settled.splits option.splits)

lemma onMessage_chat:
  assumes "msg_type message = ''chat''"
  shows "onMessage s ws (Frame message) env =
     caught (handleChatMessage s ws message (env_hf env) (env_insert env) (env_now env)) ws"
  using assms by (simp add: onMessage_def handleMessage_def)

lemma onMessage_join:
  assumes "msg_type message = ''join''"
  shows "onMessage s ws (Frame message) env = handleJoin s ws message (env_select env) (env_now env)"
  using assms by (simp add: onMessage_def handleMessage_def caught_def)

lemma onMessage_leave:
  assumes "msg_type message = ''leave''"
  shows "onMessage s ws (Frame message) env = handleLeave s ws message (env_now env)"
  using assms by (simp add: onMessage_def handleMessage_def caught_def)

lemma chat_begin_bound:
  assumes "msg_content message = Some c" "c \<noteq> []"
    and "ws_roomId (sockets s ws) = Some r" "r \<noteq> []"
    and "ws_userId (sockets s ws) = Some u" "u \<noteq> []"
  shows "handleChatMessage_begin s ws message = Await s (c, r, u, ws_nickname (sockets s ws))"
  using assms by (simp add: handleChatMessage_begin_def)

lemma chat_replies_persisted:
  assumes "persisted c call answer"
  shows "\<exists>v savedMessage. detectCrisis c call = Returned v
      \<and> answer = Resolved \<lparr> data = Some savedMessage, error = None \<rparr>
      \<and> chat_replies s ws (c, r, u, n) call answer now =
          map (\<lambda>w. (w, chat_event savedMessage n)) (audience s r) @
          (if isCrisis v \<and> riskLevel v \<noteq> RNone
           then [(ws, EvCrisisAlert (riskLevel v) (getCrisisResourcesMessage (riskLevel v)) now)]
           else [])"
proof -
  obtain v where v: "detectCrisis c call = Returned v"
    using assms by (cases "detectCrisis c call") (auto simp: persisted_def)
  obtain a where a: "answer = Resolved a" "error a = None" "data a \<noteq> None"
    using assms by (cases answer) (auto simp: persisted_def insert_succeeded_def)
  then obtain savedMessage where m: "data a = Some savedMessage" by auto
  have "a = \<lparr> data = Some savedMessage, error = None \<rparr>" using a(2) m by simp
  then show ?thesis using v a(1) by (auto simp: chat_replies_def)
qed

lemma chat_replies_not_persisted:
  assumes "\<not> persisted c call answer"
  shows "\<exists>m. chat_replies s ws (c, r, u, n) call answer now = [(ws, EvError m)]"
  using assms
  by (auto simp: chat_replies_def persisted_def insert_succeeded_def
      split: attempt.splits settled.splits option.splits)

lemma state_chat_resume:
  "rooms (caught (handleChatMessage_resume s ws (c, r, u, n) call answer now) ws) = rooms s
   \<and> sockets (caught (handleChatMessage_resume s ws (c, r, u, n) call answer now) ws) = sockets s
   \<and> requests (caught (handleChatMessage_resume s ws (c, r, u, n) call answer now) ws) =
       requests s @
         (case detectCrisis c call of
            Raised \<Rightarrow> []
          | Returned v \<Rightarrow>
              [Insert \<lparr> new_room_id = r, new_user_id = u, new_nickname = n, new_content = c,
                        new_risk_level = riskLevel v \<rparr>])"
  by (simp add: handleChatMessage_resume_def caught_def Let_def
      split: attempt.splits settled.splits option.splits)

lemma persisted_iff:
  "persisted c call answer \<longleftrightarrow>
     (\<exists>v savedMessage. detectCrisis c call = Returned v
        \<and> answer = Resolved \<lparr> data = Some savedMessage, error = None \<rparr>)"
proof
  assume "persisted c call answer"
  from chat_replies_persisted [OF this, of initial 0 "[]" "[]" None 0]
  show "\<exists>v savedMessage. detectCrisis c call = Returned v
        \<and> answer = Resolved \<lparr> data = Some savedMessage, error = None \<rparr>"
    by blast
next
  assume "\<exists>v savedMessage. detectCrisis c call = Returned v
        \<and> answer = Resolved \<lparr> data = Some savedMessage, error = None \<rparr>"
  then show "persisted c call answer"
    by (auto simp: persisted_def insert_succeeded_def)
qed

lemma chats_of_chat_replies:
  "(is_chat e \<and> (w, e) \<in> set (chat_replies s ws (c, r, u, n) call answer now)) \<longleftrightarrow>
     (\<exists>v savedMessage. detectCrisis c call = Returned v
        \<and> answer = Resolved \<lparr> data = Some savedMessage, error = None \<rparr>
        \<and> w \<in> set (audience s r) \<and> e = chat_event savedMessage n)"
proof (cases "persisted c call answer")
  case True
  from chat_replies_persisted [OF True, of s ws r u n now]
  obtain v :: CrisisDetectionResult and savedMessage where
    v: "detectCrisis c call = Returned v"
    and a: "answer = Resolved \<lparr> data = Some savedMessage, error = None \<rparr>"
    and new: "chat_replies s ws (c, r, u, n) call answer now =
          map (\<lambda>w. (w, chat_event savedMessage n)) (audience s r) @
          (if isCrisis v \<and> riskLevel v \<noteq> RNone
           then [(ws, EvCrisisAlert (riskLevel v) (getCrisisResourcesMessage (riskLevel v)) now)]
           else [])"
    by blast
  have chat: "is_chat (chat_event savedMessage n)" by (simp add: chat_event_def)
  show ?thesis
    unfolding new using chat v a by (auto simp: image_iff)
next
  case False
  from chat_replies_not_persisted [OF False, of s ws r u n now]
  obtain m where new: "chat_replies s ws (c, r, u, n) call answer now = [(ws, EvError m)]" by blast
  have "\<not> (\<exists>v savedMessage. detectCrisis c call = Returned v
        \<and> answer = Resolved \<lparr> data = Some savedMessage, error = None \<rparr>)"
    using False by (auto simp: persisted_def insert_succeeded_def)
  then show ?thesis unfolding new by auto
qed

lemma chat_replies_order:
  assumes "detectCrisis c call = Returned v"
    and "answer = Resolved \<lparr> data = Some savedMessage, error = None \<rparr>"
  shows "filter (\<lambda>x. is_chat (snd x)) (chat_replies s ws (c, r, u, n) call answer now) =
           map (\<lambda>w. (w, chat_event savedMessage n)) (audience s r)"
proof -
  have chat: "is_chat (chat_event savedMessage n)" by (simp add: chat_event_def)
  show ?thesis
    using assms chat by (simp add: chat_replies_def filter_map comp_def)
qed

lemma chat_replies_storage_error:
  assumes "detectCrisis c call = Returned v" and "answer = Resolved a" and "error a = Some e"
  shows "chat_replies s ws (c, r, u, n) call answer now = [(ws, EvError ''Failed to save message'')]"
  using assms by (simp add: chat_replies_def)

text \<open>
  C1. A chat frame on a connection that is bound to a room and an identity, with
  content, is suspended with its content and binding. Whatever the state \<open>s\<close> in which
  it goes on: once the classifier has returned, the handler hands the message to the
  storage, with the binding, the content and the verdict's level, and it hands nothing
  to the storage otherwise. The chat event built from the row that the storage saved
  is sent to a connection exactly when the storage answered that insert with the row
  and without an error and the connection is an open member of the room, once per
  such member and in the order of the room, and no other chat event is sent. When the
  message was not persisted, the one thing sent is a private error to the sender, which
  is \<open>Failed to save message\<close> when the storage answered with an error. The registry
  and the sockets stay as they are.
\<close>

theorem chat_broadcast_iff_persisted:
  assumes "msg_content message = Some c" and "c \<noteq> []"
    and "ws_roomId (sockets s0 ws) = Some r" and "r \<noteq> []"
    and "ws_userId (sockets s0 ws) = Some u" and "u \<noteq> []"
  shows "\<exists>kept. handleChatMessage_begin s0 ws message = Await s0 kept \<and>
     (\<forall>s call answer now. \<exists>new.
        sent (caught (handleChatMessage_resume s ws kept call answer now) ws) = sent s @ new
        \<and> (\<forall>w. (\<exists>e. is_chat e \<and> (w, e) \<in> set new) \<longleftrightarrow>
                 (persisted c call answer \<and> w \<in> set (audience s r)))
        \<and> (\<not> persisted c call answer \<longrightarrow> (\<exists>m. new = [(ws, EvError m)]))
        \<and> rooms (caught (handleChatMessage_resume s ws kept call answer now) ws) = rooms s
        \<and> sockets (caught (handleChatMessage_resume s ws kept call answer now) ws) = sockets s
        \<and> requests (caught (handleChatMessage_resume s ws kept call answer now) ws) =
            requests s @
              (case detectCrisis c call of
                 Raised \<Rightarrow> []
               | Returned v \<Rightarrow>
                   [Insert \<lparr> new_room_id = r, new_user_id = u,
                             new_nickname = ws_nickname (sockets s0 ws), new_content = c,
                             new_risk_level = riskLevel v \<rparr>])
        \<and> (\<forall>w e. (is_chat e \<and> (w, e) \<in> set new) \<longleftrightarrow>
               (\<exists>v savedMessage. detectCrisis c call = Returned v
                  \<and> answer = Resolved \<lparr> data = Some savedMessage, error = None \<rparr>
                  \<and> w \<in> set (audience s r)
                  \<and> e = EvChat (user_id savedMessage)
                          (if present (row_nickname savedMessage) then row_nickname savedMessage
                           else ws_nickname (sockets s0 ws))
                          (content savedMessage) (created_at savedMessage)
                          (risk_level savedMessage)))
        \<and> (\<forall>v savedMessage. detectCrisis c call = Returned v
               \<and> answer = Resolved \<lparr> data = Some savedMessage, error = None \<rparr> \<longrightarrow>
               filter (\<lambda>x. is_chat (snd x)) new =
                 map (\<lambda>w. (w, EvChat (user_id savedMessage)
                          (if present (row_nickname savedMessage) then row_nickname savedMessage
                           else ws_nickname (sockets s0 ws))
                          (content savedMessage) (created_at savedMessage)
                          (risk_level savedMessage)))
                   (audience s r))
        \<and> (\<forall>v a e. detectCrisis c call = Returned v \<and> answer = Resolved a \<and> error a = Some e \<longrightarrow>
               new = [(ws, EvError ''Failed to save message'')]))"
proof -
  let ?n = "ws_nickname (sockets s0 ws)"
  let ?kept = "(c, r, u, ?n)"
  have start: "handleChatMessage_begin s0 ws message = Await s0 ?kept"
    using assms by (rule chat_begin_bound)
  have resume: "
        sent (caught (handleChatMessage_resume s ws ?kept call answer now) ws)
          = sent s @ chat_replies s ws ?kept call answer now
        \<and> (\<forall>w. (\<exists>e. is_chat e \<and> (w, e) \<in> set (chat_replies s ws ?kept call answer now)) \<longleftrightarrow>
                 (persisted c call answer \<and> w \<in> set (audience s r)))
        \<and> (\<not> persisted c call answer \<longrightarrow> (\<exists>m. chat_replies s ws ?kept call answer now = [(ws, EvError m)]))
        \<and> rooms (caught (handleChatMessage_resume s ws ?kept call answer now) ws) = rooms s
        \<and> sockets (caught (handleChatMessage_resume s ws ?kept call answer now) ws) = sockets s
        \<and> requests (caught (handleChatMessage_resume s ws ?kept call answer now) ws) =
            requests s @
              (case detectCrisis c call of
                 Raised \<Rightarrow> []
               | Returned v \<Rightarrow>
                   [Insert \<lparr> new_room_id = r, new_user_id = u, new_nickname = ?n, new_content = c,
                             new_risk_level = riskLevel v \<rparr>])
        \<and> (\<forall>w e. (is_chat e \<and> (w, e) \<in> set (chat_replies s ws ?kept call answer now)) \<longleftrightarrow>
               (\<exists>v savedMessage. detectCrisis c call = Returned v
                  \<and> answer = Resolved \<lparr> data = Some savedMessage, error = None \<rparr>
                  \<and> w \<in> set (audience s r)
                  \<and> e = EvChat (user_id savedMessage)
                          (if present (row_nickname savedMessage) then row_nickname savedMessage
                           else ?n)
                          (content savedMessage) (created_at savedMessage)
                          (risk_level savedMessage)))
        \<and> (\<forall>v savedMessage. detectCrisis c call = Returned v
               \<and> answer = Resolved \<lparr> data = Some savedMessage, error = None \<rparr> \<longrightarrow>
               filter (\<lambda>x. is_chat (snd x)) (chat_replies s ws ?kept call answer now) =
                 map (\<lambda>w. (w, EvChat (user_id savedMessage)
                          (if present (row_nickname savedMessage) then row_nickname savedMessage
                           else ?n)
                          (content savedMessage) (created_at savedMessage)
                          (risk_level savedMessage)))
                   (audience s r))
        \<and> (\<forall>v a e. detectCrisis c call = Returned v \<and> answer = Resolved a \<and> error a = Some e \<longrightarrow>
               chat_replies s ws ?kept call answer now = [(ws, EvError ''Failed to save message'')])"
    for s call answer now
  proof (intro conjI)
    show "sent (caught (handleChatMessage_resume s ws ?kept call answer now) ws)
          = sent s @ chat_replies s ws ?kept call answer now"
      by (rule sent_chat_resume)
    show "\<forall>w. (\<exists>e. is_chat e \<and> (w, e) \<in> set (chat_replies s ws ?kept call answer now)) \<longleftrightarrow>
                 (persisted c call answer \<and> w \<in> set (audience s r))"
    proof
      fix w
      have "(\<exists>e. is_chat e \<and> (w, e) \<in> set (chat_replies s ws ?kept call answer now)) \<longleftrightarrow>
          (\<exists>v savedMessage. detectCrisis c call = Returned v
             \<and> answer = Resolved \<lparr> data = Some savedMessage, error = None \<rparr>
             \<and> w \<in> set (audience s r))"
        unfolding chats_of_chat_replies by blast
      also have "\<dots> \<longleftrightarrow> (persisted c call answer \<and> w \<in> set (audience s r))"
        unfolding persisted_iff by blast
      finally show "(\<exists>e. is_chat e \<and> (w, e) \<in> set (chat_replies s ws ?kept call answer now)) \<longleftrightarrow>
                 (persisted c call answer \<and> w \<in> set (audience s r))" .
    qed
    show "\<not> persisted c call answer \<longrightarrow> (\<exists>m. chat_replies s ws ?kept call answer now = [(ws, EvError m)])"
      using chat_replies_not_persisted by blast
    show "rooms (caught (handleChatMessage_resume s ws ?kept call answer now) ws) = rooms s"
      "sockets (caught (handleChatMessage_resume s ws ?kept call answer now) ws) = sockets s"
      "requests (caught (handleChatMessage_resume s ws ?kept call answer now) ws) =
            requests s @
              (case detectCrisis c call of
                 Raised \<Rightarrow> []
               | Returned v \<Rightarrow>
                   [Insert \<lparr> new_room_id = r, new_user_id = u, new_nickname = ?n, new_content = c,
                             new_risk_level = riskLevel v \<rparr>])"
      using state_chat_resume [of s ws c r u ?n call answer now] by simp_all
    show "\<forall>w e. (is_chat e \<and> (w, e) \<in> set (chat_replies s ws ?kept call answer now)) \<longleftrightarrow>
               (\<exists>v savedMessage. detectCrisis c call = Returned v
                  \<and> answer = Resolved \<lparr> data = Some savedMessage, error = None \<rparr>
                  \<and> w \<in> set (audience s r)
                  \<and> e = EvChat (user_id savedMessage)
                          (if present (row_nickname savedMessage) then row_nickname savedMessage
                           else ?n)
                          (content savedMessage) (created_at savedMessage)
                          (risk_level savedMessage))"
      unfolding chats_of_chat_replies chat_event_def by blast
    show "\<forall>v savedMessage. detectCrisis c call = Returned v
               \<and> answer = Resolved \<lparr> data = Some savedMessage, error = None \<rparr> \<longrightarrow>
               filter (\<lambda>x. is_chat (snd x)) (chat_replies s ws ?kept call answer now) =
                 map (\<lambda>w. (w, EvChat (user_id savedMessage)
                          (if present (row_nickname savedMessage) then row_nickname savedMessage
                           else ?n)
                          (content savedMessage) (created_at savedMessage)
                          (risk_level savedMessage)))
                   (audience s r)"
      using chat_replies_order [of c call _ answer _ s ws r u ?n now]
      unfolding chat_event_def by blast
    show "\<forall>v a e. detectCrisis c call = Returned v \<and> answer = Resolved a \<and> error a = Some e \<longrightarrow>
               chat_replies s ws ?kept call answer now = [(ws, EvError ''Failed to save message'')]"
      using chat_replies_storage_error by blast
  qed
  have "\<forall>s call answer now. \<exists>new.
        sent (caught (handleChatMessage_resume s ws ?kept call answer now) ws) = sent s @ new
        \<and> (\<forall>w. (\<exists>e. is_chat e \<and> (w, e) \<in> set new) \<longleftrightarrow>
                 (persisted c call answer \<and> w \<in> set (audience s r)))
        \<and> (\<not> persisted c call answer \<longrightarrow> (\<exists>m. new = [(ws, EvError m)]))
        \<and> rooms (caught (handleChatMessage_resume s ws ?kept call answer now) ws) = rooms s
        \<and> sockets (caught (handleChatMessage_resume s ws ?kept call answer now) ws) = sockets s
        \<and> requests (caught (handleChatMessage_resume s ws ?kept call answer now) ws) =
            requests s @
              (case detectCrisis c call of
                 Raised \<Rightarrow> []
               | Returned v \<Rightarrow>
                   [Insert \<lparr> new_room_id = r, new_user_id = u, new_nickname = ?n, new_content = c,
                             new_risk_level = riskLevel v \<rparr>])
        \<and> (\<forall>w e. (is_chat e \<and> (w, e) \<in> set new) \<longleftrightarrow>
               (\<exists>v savedMessage. detectCrisis c call = Returned v
                  \<and> answer = Resolved \<lparr> data = Some savedMessage, error = None \<rparr>
                  \<and> w \<in> set (audience s r)
                  \<and> e = EvChat (user_id savedMessage)
                          (if present (row_nickname savedMessage) then row_nickname savedMessage
                           else ?n)
                          (content savedMessage) (created_at savedMessage)
                          (risk_level savedMessage)))
        \<and> (\<forall>v savedMessage. detectCrisis c call = Returned v
               \<and> answer = Resolved \<lparr> data = Some savedMessage, error = None \<rparr> \<longrightarrow>
               filter (\<lambda>x. is_chat (snd x)) new =
                 map (\<lambda>w. (w, EvChat (user_id savedMessage)
                          (if present (row_nickname savedMessage) then row_nickname savedMessage
                           else ?n)
                          (content savedMessage) (created_at savedMessage)
                          (risk_level savedMessage)))
                   (audience s r))
        \<and> (\<forall>v a e. detectCrisis c call = Returned v \<and> answer = Resolved a \<and> error a = Some e \<longrightarrow>
               new = [(ws, EvError ''Failed to save message'')])"
  proof (intro allI)
    fix s call answer now
    show "\<exists>new.
        sent (caught (handleChatMessage_resume s ws ?kept call answer now) ws) = sent s @ new
        \<and> (\<forall>w. (\<exists>e. is_chat e \<and> (w, e) \<in> set new) \<longleftrightarrow>
                 (persisted c call answer \<and> w \<in> set (audience s r)))
        \<and> (\<not> persisted c call answer \<longrightarrow> (\<exists>m. new = [(ws, EvError m)]))
        \<and> rooms (caught (handleChatMessage_resume s ws ?kept call answer now) ws) = rooms s
        \<and> sockets (caught (handleChatMessage_resume s ws ?kept call answer now) ws) = sockets s
        \<and> requests (caught (handleChatMessage_resume s ws ?kept call answer now) ws) =
            requests s @
              (case detectCrisis c call of
                 Raised \<Rightarrow> []
               | Returned v \<Rightarrow>
                   [Insert \<lparr> new_room_id = r, new_user_id = u, new_nickname = ?n, new_content = c,
                             new_risk_level = riskLevel v \<rparr>])
        \<and> (\<forall>w e. (is_chat e \<and> (w, e) \<in> set new) \<longleftrightarrow>
               (\<exists>v savedMessage. detectCrisis c call = Returned v
                  \<and> answer = Resolved \<lparr> data = Some savedMessage, error = None \<rparr>
                  \<and> w \<in> set (audience s r)
                  \<and> e = EvChat (user_id savedMessage)
                          (if present (row_nickname savedMessage) then row_nickname savedMessage
                           else ?n)
                          (content savedMessage) (created_at savedMessage)
                          (risk_level savedMessage)))
        \<and> (\<forall>v savedMessage. detectCrisis c call = Returned v
               \<and> answer = Resolved \<lparr> data = Some savedMessage, error = None \<rparr> \<longrightarrow>
               filter (\<lambda>x. is_chat (snd x)) new =
                 map (\<lambda>w. (w, EvChat (user_id savedMessage)
                          (if present (row_nickname savedMessage) then row_nickname savedMessage
                           else ?n)
                          (content savedMessage) (created_at savedMessage)
                          (risk_level savedMessage)))
                   (audience s r))
        \<and> (\<forall>v a e. detectCrisis c call = Returned v \<and> answer = Resolved a \<and> error a = Some e \<longrightarrow>
               new = [(ws, EvError ''Failed to save message'')])"
      by (rule exI [of _ "chat_replies s ws ?kept call answer now"]) (rule resume)
  qed
  with start show ?thesis by (intro exI [of _ ?kept] conjI)
qed

theorem chat_broadcast_iff_persisted_witness:
  "\<exists>kept. handleChatMessage_begin alice_in_room 0 (chat_frame ''hello'') = Await alice_in_room kept
     \<and> (\<exists>new. sent (caught (handleChatMessage_resume alice_and_bob 0 kept NoToken
                            (saved_ok ''hello'' RNone) 3) 0) = sent alice_and_bob @ new
            \<and> filter (\<lambda>x. is_chat (snd x)) new =
                 [(0, EvChat ''u1'' (Some ''Alice'') ''hello'' 7 RNone),
                  (1, EvChat ''u1'' (Some ''Alice'') ''hello'' 7 RNone)])
     \<and> requests (caught (handleChatMessage_resume alice_and_bob 0 kept NoToken
                            (saved_ok ''hello'' RNone) 3) 0)
         = requests alice_and_bob @
             [Insert \<lparr> new_room_id = ''r1'', new_user_id = ''u1'', new_nickname = Some ''Alice'',
                       new_content = ''hello'', new_risk_level = RNone \<rparr>]
     \<and> sent (caught (handleChatMessage_resume alice_and_bob 0 kept NoToken
                            (Resolved \<lparr> data = None, error = Some ''down'' \<rparr>) 3) 0)
           = sent alice_and_bob @ [(0, EvError ''Failed to save message'')]"
proof -
  have h1: "msg_content (chat_frame ''hello'') = Some ''hello''" by code_simp
  have h2: "ws_roomId (sockets alice_in_room 0) = Some ''r1''" by code_simp
  have h3: "ws_userId (sockets alice_in_room 0) = Some ''u1''" by code_simp
  have ne: "''hello'' \<noteq> []" "''r1'' \<noteq> []" "''u1'' \<noteq> []" by simp_all
  have n: "ws_nickname (sockets alice_in_room 0) = Some ''Alice''" by code_simp
  have d: "detectCrisis ''hello'' NoToken = Returned (analyzeWithKeywords ''hello'')" by code_simp
  have l: "riskLevel (analyzeWithKeywords ''hello'') = RNone" by code_simp
  have a: "audience alice_and_bob ''r1'' = [0, 1]" by code_simp
  have ok: "saved_ok ''hello'' RNone = (Resolved \<lparr> data = Some (saved_row ''r1'' ''u1'' ''Alice'' ''hello'' RNone 7), error = None \<rparr>)"
    by (simp add: saved_ok_def)
  note th = chat_broadcast_iff_persisted [OF h1 ne(1) h2 ne(2) h3 ne(3), unfolded n]
  from th obtain kept where
    k: "handleChatMessage_begin alice_in_room 0 (chat_frame ''hello'') = Await alice_in_room kept"
    and big: "\<forall>s call answer now. \<exists>new.
        sent (caught (handleChatMessage_resume s 0 kept call answer now) 0) = sent s @ new
        \<and> (\<forall>w. (\<exists>e. is_chat e \<and> (w, e) \<in> set new) \<longleftrightarrow>
                 (persisted ''hello'' call answer \<and> w \<in> set (audience s ''r1'')))
        \<and> (\<not> persisted ''hello'' call answer \<longrightarrow> (\<exists>m. new = [(0, EvError m)]))
        \<and> rooms (caught (handleChatMessage_resume s 0 kept call answer now) 0) = rooms s
        \<and> sockets (caught (handleChatMessage_resume s 0 kept call answer now) 0) = sockets s
        \<and> requests (caught (handleChatMessage_resume s 0 kept call answer now) 0) =
            requests s @
              (case detectCrisis ''hello'' call of
                 Raised \<Rightarrow> []
               | Returned v \<Rightarrow>
                   [Insert \<lparr> new_room_id = ''r1'', new_user_id = ''u1'',
                             new_nickname = (Some ''Alice''), new_content = ''hello'',
                             new_risk_level = riskLevel v \<rparr>])
        \<and> (\<forall>w e. (is_chat e \<and> (w, e) \<in> set new) \<longleftrightarrow>
               (\<exists>v savedMessage. detectCrisis ''hello'' call = Returned v
                  \<and> answer = Resolved \<lparr> data = Some savedMessage, error = None \<rparr>
                  \<and> w \<in> set (audience s ''r1'')
                  \<and> e = EvChat (user_id savedMessage)
                          (if present (row_nickname savedMessage) then row_nickname savedMessage
                           else (Some ''Alice''))
                          (content savedMessage) (created_at savedMessage)
                          (risk_level savedMessage)))
        \<and> (\<forall>v savedMessage. detectCrisis ''hello'' call = Returned v
               \<and> answer = Resolved \<lparr> data = Some savedMessage, error = None \<rparr> \<longrightarrow>
               filter (\<lambda>x. is_chat (snd x)) new =
                 map (\<lambda>w. (w, EvChat (user_id savedMessage)
                          (if present (row_nickname savedMessage) then row_nickname savedMessage
                           else (Some ''Alice''))
                          (content savedMessage) (created_at savedMessage)
                          (risk_level savedMessage)))
                   (audience s ''r1''))
        \<and> (\<forall>v a e. detectCrisis ''hello'' call = Returned v \<and> answer = Resolved a \<and> error a = Some e \<longrightarrow>
               new = [(0, EvError ''Failed to save message'')])"
    by (elim exE conjE)
  from big [THEN spec, THEN spec, THEN spec, THEN spec, of alice_and_bob NoToken
      "(Resolved \<lparr> data = Some (saved_row ''r1'' ''u1'' ''Alice'' ''hello'' RNone 7), error = None \<rparr>)" 3]
  obtain new where N: "
        sent (caught (handleChatMessage_resume alice_and_bob 0 kept NoToken (Resolved \<lparr> data = Some (saved_row ''r1'' ''u1'' ''Alice'' ''hello'' RNone 7), error = None \<rparr>) 3) 0) = sent alice_and_bob @ new
        \<and> (\<forall>w. (\<exists>e. is_chat e \<and> (w, e) \<in> set new) \<longleftrightarrow>
                 (persisted ''hello'' NoToken (Resolved \<lparr> data = Some (saved_row ''r1'' ''u1'' ''Alice'' ''hello'' RNone 7), error = None \<rparr>) \<and> w \<in> set (audience alice_and_bob ''r1'')))
        \<and> (\<not> persisted ''hello'' NoToken (Resolved \<lparr> data = Some (saved_row ''r1'' ''u1'' ''Alice'' ''hello'' RNone 7), error = None \<rparr>) \<longrightarrow> (\<exists>m. new = [(0, EvError m)]))
        \<and> rooms (caught (handleChatMessage_resume alice_and_bob 0 kept NoToken (Resolved \<lparr> data = Some (saved_row ''r1'' ''u1'' ''Alice'' ''hello'' RNone 7), error = None \<rparr>) 3) 0) = rooms alice_and_bob
        \<and> sockets (caught (handleChatMessage_resume alice_and_bob 0 kept NoToken (Resolved \<lparr> data = Some (saved_row ''r1'' ''u1'' ''Alice'' ''hello'' RNone 7), error = None \<rparr>) 3) 0) = sockets alice_and_bob
        \<and> requests (caught (handleChatMessage_resume alice_and_bob 0 kept NoToken (Resolved \<lparr> data = Some (saved_row ''r1'' ''u1'' ''Alice'' ''hello'' RNone 7), error = None \<rparr>) 3) 0) =
            requests alice_and_bob @
              (case detectCrisis ''hello'' NoToken of
                 Raised \<Rightarrow> []
               | Returned v \<Rightarrow>
                   [Insert \<lparr> new_room_id = ''r1'', new_user_id = ''u1'',
                             new_nickname = (Some ''Alice''), new_content = ''hello'',
                             new_risk_level = riskLevel v \<rparr>])
        \<and> (\<forall>w e. (is_chat e \<and> (w, e) \<in> set new) \<longleftrightarrow>
               (\<exists>v savedMessage. detectCrisis ''hello'' NoToken = Returned v
                  \<and> (Resolved \<lparr> data = Some (saved_row ''r1'' ''u1'' ''Alice'' ''hello'' RNone 7), error = None \<rparr>) = Resolved \<lparr> data = Some savedMessage, error = None \<rparr>
                  \<and> w \<in> set (audience alice_and_bob ''r1'')
                  \<and> e = EvChat (user_id savedMessage)
                          (if present (row_nickname savedMessage) then row_nickname savedMessage
                           else (Some ''Alice''))
                          (content savedMessage) (created_at savedMessage)
                          (risk_level savedMessage)))
        \<and> (\<forall>v savedMessage. detectCrisis ''hello'' NoToken = Returned v
               \<and> (Resolved \<lparr> data = Some (saved_row ''r1'' ''u1'' ''Alice'' ''hello'' RNone 7), error = None \<rparr>) = Resolved \<lparr> data = Some savedMessage, error = None \<rparr> \<longrightarrow>
               filter (\<lambda>x. is_chat (snd x)) new =
                 map (\<lambda>w. (w, EvChat (user_id savedMessage)
                          (if present (row_nickname savedMessage) then row_nickname savedMessage
                           else (Some ''Alice''))
                          (content savedMessage) (created_at savedMessage)
                          (risk_level savedMessage)))
                   (audience alice_and_bob ''r1''))
        \<and> (\<forall>v a e. detectCrisis ''hello'' NoToken = Returned v \<and> (Resolved \<lparr> data = Some (saved_row ''r1'' ''u1'' ''Alice'' ''hello'' RNone 7), error = None \<rparr>) = Resolved a \<and> error a = Some e \<longrightarrow>
               new = [(0, EvError ''Failed to save message'')])"
    by (elim exE)
  from big [THEN spec, THEN spec, THEN spec, THEN spec, of alice_and_bob NoToken
      "(Resolved \<lparr> data = None, error = Some ''down'' \<rparr>)" 3]
  obtain new' where M: "
        sent (caught (handleChatMessage_resume alice_and_bob 0 kept NoToken (Resolved \<lparr> data = None, error = Some ''down'' \<rparr> :: stored_message response settled) 3) 0) = sent alice_and_bob @ new'
        \<and> (\<forall>w. (\<exists>e. is_chat e \<and> (w, e) \<in> set new') \<longleftrightarrow>
                 (persisted ''hello'' NoToken (Resolved \<lparr> data = None, error = Some ''down'' \<rparr> :: stored_message response settled) \<and> w \<in> set (audience alice_and_bob ''r1'')))
        \<and> (\<not> persisted ''hello'' NoToken (Resolved \<lparr> data = None, error = Some ''down'' \<rparr> :: stored_message response settled) \<longrightarrow> (\<exists>m. new' = [(0, EvError m)]))
        \<and> rooms (caught (handleChatMessage_resume alice_and_bob 0 kept NoToken (Resolved \<lparr> data = None, error = Some ''down'' \<rparr> :: stored_message response settled) 3) 0) = rooms alice_and_bob
        \<and> sockets (caught (handleChatMessage_resume alice_and_bob 0 kept NoToken (Resolved \<lparr> data = None, error = Some ''down'' \<rparr> :: stored_message response settled) 3) 0) = sockets alice_and_bob
        \<and> requests (caught (handleChatMessage_resume alice_and_bob 0 kept NoToken (Resolved \<lparr> data = None, error = Some ''down'' \<rparr> :: stored_message response settled) 3) 0) =
            requests alice_and_bob @
              (case detectCrisis ''hello'' NoToken of
                 Raised \<Rightarrow> []
               | Returned v \<Rightarrow>
                   [Insert \<lparr> new_room_id = ''r1'', new_user_id = ''u1'',
                             new_nickname = (Some ''Alice''), new_content = ''hello'',
                             new_risk_level = riskLevel v \<rparr>])
        \<and> (\<forall>w e. (is_chat e \<and> (w, e) \<in> set new') \<longleftrightarrow>
               (\<exists>v savedMessage. detectCrisis ''hello'' NoToken = Returned v
                  \<and> (Resolved \<lparr> data = None, error = Some ''down'' \<rparr> :: stored_message response settled) = Resolved \<lparr> data = Some savedMessage, error = None \<rparr>
                  \<and> w \<in> set (audience alice_and_bob ''r1'')
                  \<and> e = EvChat (user_id savedMessage)
                          (if present (row_nickname savedMessage) then row_nickname savedMessage
                           else (Some ''Alice''))
                          (content savedMessage) (created_at savedMessage)
                          (risk_level savedMessage)))
        \<and> (\<forall>v savedMessage. detectCrisis ''hello'' NoToken = Returned v
               \<and> (Resolved \<lparr> data = None, error = Some ''down'' \<rparr> :: stored_message response settled) = Resolved \<lparr> data = Some savedMessage, error = None \<rparr> \<longrightarrow>
               filter (\<lambda>x. is_chat (snd x)) new' =
                 map (\<lambda>w. (w, EvChat (user_id savedMessage)
                          (if present (row_nickname savedMessage) then row_nickname savedMessage
                           else (Some ''Alice''))
                          (content savedMessage) (created_at savedMessage)
                          (risk_level savedMessage)))
                   (audience alice_and_bob ''r1''))
        \<and> (\<forall>v a e. detectCrisis ''hello'' NoToken = Returned v \<and> (Resolved \<lparr> data = None, error = Some ''down'' \<rparr> :: stored_message response settled) = Resolved a \<and> error a = Some e \<longrightarrow>
               new' = [(0, EvError ''Failed to save message'')])"
    by (elim exE)
  have s: "sent (caught (handleChatMessage_resume alice_and_bob 0 kept NoToken
                            (saved_ok ''hello'' RNone) 3) 0) = sent alice_and_bob @ new"
    unfolding ok using N [THEN conjunct1] .
  have q: "requests (caught (handleChatMessage_resume alice_and_bob 0 kept NoToken
                            (saved_ok ''hello'' RNone) 3) 0)
         = requests alice_and_bob @
             [Insert \<lparr> new_room_id = ''r1'', new_user_id = ''u1'', new_nickname = Some ''Alice'',
                       new_content = ''hello'', new_risk_level = RNone \<rparr>]"
    unfolding ok using N [THEN conjunct2, THEN conjunct2, THEN conjunct2, THEN conjunct2, THEN conjunct2, THEN conjunct1] by (simp add: d l)
  have f: "filter (\<lambda>x. is_chat (snd x)) new =
                 [(0, EvChat ''u1'' (Some ''Alice'') ''hello'' 7 RNone),
                  (1, EvChat ''u1'' (Some ''Alice'') ''hello'' 7 RNone)]"
    using N [THEN conjunct2, THEN conjunct2, THEN conjunct2, THEN conjunct2, THEN conjunct2, THEN conjunct2, THEN conjunct2, THEN conjunct1, rule_format, of "analyzeWithKeywords ''hello''"
        "saved_row ''r1'' ''u1'' ''Alice'' ''hello'' RNone 7"] d
    by (simp add: a saved_row_def present_def)
  have "new' = [(0, EvError ''Failed to save message'')]"
    using M [THEN conjunct2, THEN conjunct2, THEN conjunct2, THEN conjunct2, THEN conjunct2, THEN conjunct2, THEN conjunct2, THEN conjunct2, rule_format, of "analyzeWithKeywords ''hello''"
        "\<lparr> data = None, error = Some ''down'' \<rparr>" "''down''"] d
    by simp
  then have e: "sent (caught (handleChatMessage_resume alice_and_bob 0 kept NoToken
                            (Resolved \<lparr> data = None, error = Some ''down'' \<rparr>) 3) 0)
           = sent alice_and_bob @ [(0, EvError ''Failed to save message'')]"
    using M [THEN conjunct1] by simp
  show ?thesis using k s f q e by blast
qed

subsection \<open>The crisis alert\<close>

lemma isCrisis_returned:
  assumes "detectCrisis c call = Returned v"
  shows "isCrisis v \<longleftrightarrow> riskLevel v \<noteq> RNone"
  using detectCrisis_cases [OF assms]
  by (auto simp: analyzeWithKeywords_def merge_verdict_def Let_def)

lemma alerts_of_chat_replies:
  "(is_alert e \<and> (w, e) \<in> set (chat_replies s ws (c, r, u, n) call answer now)) \<longleftrightarrow>
     (\<exists>v. detectCrisis c call = Returned v \<and> insert_succeeded answer \<and> riskLevel v \<noteq> RNone
        \<and> w = ws
        \<and> e = EvCrisisAlert (riskLevel v) (getCrisisResourcesMessage (riskLevel v)) now)"
proof (cases "detectCrisis c call")
  case Raised
  then show ?thesis by (auto simp: chat_replies_def)
next
  case (Returned v)
  have iff: "isCrisis v \<longleftrightarrow> riskLevel v \<noteq> RNone" using Returned by (rule isCrisis_returned)
  show ?thesis
    using Returned iff
    by (auto simp: chat_replies_def insert_succeeded_def chat_event_def
        split: settled.splits option.splits)
qed

lemma tiers:
  "getCrisisResourcesMessage Critical = getCrisisResourcesMessage High"
  "urgent_tier (getCrisisResourcesMessage High)"
  "supportive_tier (getCrisisResourcesMessage Medium)"
  "\<not> urgent_tier (getCrisisResourcesMessage Medium)"
  "\<not> urgent_tier (getCrisisResourcesMessage Low)"
  "\<not> supportive_tier (getCrisisResourcesMessage Low)"
  by code_simp+

text \<open>
  C3, as stated, fails for the level low: the keyword analysis of a text with a low-tier
  phrase is a crisis of level low, and the sender gets a \<open>crisis_alert\<close> reply.
\<close>
theorem low_risk_alert_counterexample:
  "detectCrisis ''i feel alone'' NoToken = Returned (analyzeWithKeywords ''i feel alone'')
   \<and> riskLevel (analyzeWithKeywords ''i feel alone'') = Low
   \<and> (0, EvCrisisAlert Low (getCrisisResourcesMessage Low) 3)
       \<in> set (sent (onMessage alice_in_room 0 (Frame (chat_frame ''i feel alone''))
                     (chat_env NoToken (saved_ok ''i feel alone'' Low) 3)))"
  by code_simp

text \<open>
  C3, amended. For a chat frame on a bound connection, a \<open>crisis_alert\<close> is sent exactly
  when the classifier returned a verdict whose \<open>isCrisis\<close> is true and the message was
  stored, to the sender only, with the resource message of the verdict's level.
  \<open>isCrisis\<close> is true for every level other than none, low included. The message is of
  the urgent tier for critical and high, of the supportive tier for medium, and of
  neither for low.
\<close>
theorem crisis_alert_iff_crisis:
  assumes "msg_content message = Some c" and "c \<noteq> []"
    and "ws_roomId (sockets s0 ws) = Some r" and "r \<noteq> []"
    and "ws_userId (sockets s0 ws) = Some u" and "u \<noteq> []"
  shows "(\<exists>kept. handleChatMessage_begin s0 ws message = Await s0 kept \<and>
     (\<forall>s call answer now. \<exists>new.
        sent (caught (handleChatMessage_resume s ws kept call answer now) ws) = sent s @ new
        \<and> (\<forall>w e. (is_alert e \<and> (w, e) \<in> set new) \<longleftrightarrow>
               (\<exists>v. detectCrisis c call = Returned v \<and> insert_succeeded answer
                  \<and> isCrisis v \<and> w = ws
                  \<and> e = EvCrisisAlert (riskLevel v) (getCrisisResourcesMessage (riskLevel v)) now))))
   \<and> (\<forall>call v. detectCrisis c call = Returned v \<longrightarrow> (isCrisis v \<longleftrightarrow> riskLevel v \<noteq> RNone))
   \<and> urgent_tier (getCrisisResourcesMessage Critical)
   \<and> urgent_tier (getCrisisResourcesMessage High)
   \<and> supportive_tier (getCrisisResourcesMessage Medium)
   \<and> \<not> urgent_tier (getCrisisResourcesMessage Low)
   \<and> \<not> supportive_tier (getCrisisResourcesMessage Low)"
proof -
  let ?kept = "(c, r, u, ws_nickname (sockets s0 ws))"
  have start: "handleChatMessage_begin s0 ws message = Await s0 ?kept"
    using assms by (rule chat_begin_bound)
  have resume: "\<exists>new.
        sent (caught (handleChatMessage_resume s ws ?kept call answer now) ws) = sent s @ new
        \<and> (\<forall>w e. (is_alert e \<and> (w, e) \<in> set new) \<longleftrightarrow>
               (\<exists>v. detectCrisis c call = Returned v \<and> insert_succeeded answer
                  \<and> isCrisis v \<and> w = ws
                  \<and> e = EvCrisisAlert (riskLevel v) (getCrisisResourcesMessage (riskLevel v)) now))"
    for s call answer now
  proof -
    have "(is_alert e \<and> (w, e) \<in> set (chat_replies s ws ?kept call answer now)) \<longleftrightarrow>
               (\<exists>v. detectCrisis c call = Returned v \<and> insert_succeeded answer
                  \<and> isCrisis v \<and> w = ws
                  \<and> e = EvCrisisAlert (riskLevel v) (getCrisisResourcesMessage (riskLevel v)) now)"
      for w e
      unfolding alerts_of_chat_replies using isCrisis_returned by blast
    then show ?thesis using sent_chat_resume by blast
  qed
  have crisis: "\<forall>call v. detectCrisis c call = Returned v \<longrightarrow> (isCrisis v \<longleftrightarrow> riskLevel v \<noteq> RNone)"
    using isCrisis_returned by blast
  have "\<exists>kept. handleChatMessage_begin s0 ws message = Await s0 kept \<and>
     (\<forall>s call answer now. \<exists>new.
        sent (caught (handleChatMessage_resume s ws kept call answer now) ws) = sent s @ new
        \<and> (\<forall>w e. (is_alert e \<and> (w, e) \<in> set new) \<longleftrightarrow>
               (\<exists>v. detectCrisis c call = Returned v \<and> insert_succeeded answer
                  \<and> isCrisis v \<and> w = ws
                  \<and> e = EvCrisisAlert (riskLevel v) (getCrisisResourcesMessage (riskLevel v)) now)))"
    using start resume by blast
  then show ?thesis using crisis tiers by simp
qed

theorem crisis_alert_iff_crisis_witness:
  "\<exists>kept. handleChatMessage_begin alice_in_room 0 (chat_frame ''i feel hopeless'') = Await alice_in_room kept
     \<and> (\<exists>new. sent (caught (handleChatMessage_resume alice_in_room 0 kept NoToken
                            (saved_ok ''i feel hopeless'' Medium) 3) 0) = sent alice_in_room @ new
            \<and> (0, EvCrisisAlert Medium (getCrisisResourcesMessage Medium) 3) \<in> set new
            \<and> supportive_tier (getCrisisResourcesMessage Medium))"
proof -
  have h1: "msg_content (chat_frame ''i feel hopeless'') = Some ''i feel hopeless''" by code_simp
  have h2: "ws_roomId (sockets alice_in_room 0) = Some ''r1''" by code_simp
  have h3: "ws_userId (sockets alice_in_room 0) = Some ''u1''" by code_simp
  have v: "detectCrisis ''i feel hopeless'' NoToken = Returned (analyzeWithKeywords ''i feel hopeless'')"
    by code_simp
  have l: "riskLevel (analyzeWithKeywords ''i feel hopeless'') = Medium" by code_simp
  have c: "isCrisis (analyzeWithKeywords ''i feel hopeless'')" by code_simp
  have i: "insert_succeeded (saved_ok ''i feel hopeless'' Medium)" by code_simp
  note th = crisis_alert_iff_crisis [OF h1 _ h2 _ h3]
  from th obtain kept where
    k: "handleChatMessage_begin alice_in_room 0 (chat_frame ''i feel hopeless'') = Await alice_in_room kept"
    and r: "\<And>s call answer now. \<exists>new.
        sent (caught (handleChatMessage_resume s 0 kept call answer now) 0) = sent s @ new
        \<and> (\<forall>w e. (is_alert e \<and> (w, e) \<in> set new) \<longleftrightarrow>
               (\<exists>v. detectCrisis ''i feel hopeless'' call = Returned v \<and> insert_succeeded answer
                  \<and> isCrisis v \<and> w = 0
                  \<and> e = EvCrisisAlert (riskLevel v) (getCrisisResourcesMessage (riskLevel v)) now))"
    by auto
  from r [of alice_in_room NoToken "saved_ok ''i feel hopeless'' Medium" 3]
  obtain new where
    n: "sent (caught (handleChatMessage_resume alice_in_room 0 kept NoToken
                            (saved_ok ''i feel hopeless'' Medium) 3) 0) = sent alice_in_room @ new"
    and a: "\<And>w e. (is_alert e \<and> (w, e) \<in> set new) \<longleftrightarrow>
               (\<exists>v. detectCrisis ''i feel hopeless'' NoToken = Returned v
                  \<and> insert_succeeded (saved_ok ''i feel hopeless'' Medium)
                  \<and> isCrisis v \<and> w = 0
                  \<and> e = EvCrisisAlert (riskLevel v) (getCrisisResourcesMessage (riskLevel v)) 3)"
    by blast
  have "(0, EvCrisisAlert Medium (getCrisisResourcesMessage Medium) 3) \<in> set new"
    using a [of "EvCrisisAlert Medium (getCrisisResourcesMessage Medium) 3" 0] v l c i by auto
  moreover have "supportive_tier (getCrisisResourcesMessage Medium)"
    using th by simp
  ultimately show ?thesis using k n by blast
qed

subsection \<open>Joining\<close>

lemma map_get_set: "map_get (map_set m k v) k' = (if k' = k then Some v else map_get m k')"
  by (induction m) auto

lemma keys_map_set:
  "map fst (map_set m k v) = (if k \<in> set (map fst m) then map fst m else map fst m @ [k])"
  by (induction m k v rule: map_set.induct) (auto simp: rev_image_eqI)

lemma distinct_map_set: "distinct (map fst m) \<Longrightarrow> distinct (map fst (map_set m k v))"
  by (simp add: keys_map_set)

lemma set_map_set: "set (map_set m k v) \<subseteq> insert (k, v) (set m)"
  by (induction m k v rule: map_set.induct) (auto split: if_splits)

lemma map_get_in_set: "map_get m k = Some v \<Longrightarrow> (k, v) \<in> set m"
  by (induction m) (auto split: if_splits)

lemma map_get_None_iff: "map_get m k = None \<longleftrightarrow> k \<notin> set (map fst m)"
  by (induction m k rule: map_get.induct) (auto split: if_splits)

lemma map_get_delete: "map_get (map_delete m k) k' = (if k' = k then None else map_get m k')"
  by (induction m) (auto simp: map_delete_def)

lemma filter_key_distinct:
  "distinct (map fst m) \<Longrightarrow>
   filter (\<lambda>entry. fst entry = k) m = (case map_get m k of None \<Rightarrow> [] | Some v \<Rightarrow> [(k, v)])"
proof (induction m)
  case Nil
  then show ?case by simp
next
  case (Cons e m)
  obtain k' v' where e: "e = (k', v')" by (cases e)
  show ?case
  proof (cases "k' = k")
    case True
    then have "k \<notin> set (map fst m)" using Cons.prems e by simp
    then have "filter (\<lambda>entry. fst entry = k) m = []"
      by (auto simp: filter_empty_conv)
    then show ?thesis using True e by simp
  next
    case False
    then show ?thesis using Cons e by simp
  qed
qed

lemma memberships_inv:
  assumes "distinct (map fst (rooms s))"
    and "map_get (rooms s) r = Some room" and "distinct (map fst room)"
  shows "memberships s r u = (case map_get room u of None \<Rightarrow> [] | Some m \<Rightarrow> [m])"
  using assms by (simp add: memberships_def filter_key_distinct split: option.splits)

lemma registry_inv_rooms: "rooms s = rooms t \<Longrightarrow> registry_inv s = registry_inv t"
  by (simp add: registry_inv_def)

lemma memberships_rooms: "rooms s = rooms t \<Longrightarrow> memberships s r u = memberships t r u"
  by (simp add: memberships_def)

lemma list_all_map_set:
  "list_all P m \<Longrightarrow> P (k, v) \<Longrightarrow> list_all P (map_set m k v)"
  using set_map_set [of m k v] by (auto simp: list_all_iff)

lemma room_inv_set:
  "room_inv room \<Longrightarrow>
   room_inv (map_set room u \<lparr> member_ws = ws, member_userId = u, member_nickname = n \<rparr>)"
  by (simp add: room_inv_def distinct_map_set list_all_map_set)

lemma room_inv_empty: "room_inv []"
  by (simp add: room_inv_def)

lemma room_inv_lookup:
  assumes "list_all (\<lambda>entry. room_inv (snd entry)) m" and "map_get m r = Some room"
  shows "room_inv room"
  using assms map_get_in_set [of m r room] by (auto simp: list_all_iff)

lemma map_set_twice: "map_set (map_set m k v) k v' = map_set m k v'"
  by (induction m) auto

lemma join_begin_valid:
  assumes "msg_roomId message = Some r" "r \<noteq> []" "msg_userId message = Some u" "u \<noteq> []"
    "msg_nickname message = Some n" "n \<noteq> []"
  shows "handleJoin_begin s ws message =
     Await (s\<lparr> rooms := joined_rooms (rooms s) ws r u n,
               sockets := (sockets s)(ws := (sockets s ws)
                  \<lparr> ws_roomId := Some r, ws_userId := Some u, ws_nickname := Some n \<rparr>),
               requests := requests s @ [SelectRecent r 50] \<rparr>)
           (r, u, n)"
  using assms
  by (auto simp: handleJoin_begin_def joined_rooms_def Let_def map_has_def map_get_set map_set_twice
      split: option.splits)

lemma joined_rooms_inv:
  assumes "distinct (map fst rs)" and "list_all (\<lambda>entry. room_inv (snd entry)) rs"
  shows "distinct (map fst (joined_rooms rs ws r u n))
       \<and> list_all (\<lambda>entry. room_inv (snd entry)) (joined_rooms rs ws r u n)"
proof -
  have "room_inv (case map_get rs r of None \<Rightarrow> [] | Some room \<Rightarrow> room)"
    using assms(2) by (auto simp: room_inv_empty room_inv_lookup split: option.splits)
  then show ?thesis
    unfolding joined_rooms_def using assms
    by (simp add: distinct_map_set list_all_map_set room_inv_set)
qed

lemma joined_rooms_member:
  assumes "distinct (map fst rs)" and "list_all (\<lambda>entry. room_inv (snd entry)) rs"
    and "rooms s = joined_rooms rs ws r u n"
  shows "memberships s r u = [\<lparr> member_ws = ws, member_userId = u, member_nickname = n \<rparr>]"
proof -
  let ?old = "case map_get rs r of None \<Rightarrow> [] | Some room \<Rightarrow> room"
  let ?room = "map_set ?old u \<lparr> member_ws = ws, member_userId = u, member_nickname = n \<rparr>"
  have inv: "room_inv ?old"
    using assms(2) by (auto simp: room_inv_empty room_inv_lookup split: option.splits)
  have d: "distinct (map fst (rooms s))"
    using assms(1,3) by (simp add: joined_rooms_def distinct_map_set)
  have g: "map_get (rooms s) r = Some ?room"
    using assms(3) by (simp add: joined_rooms_def map_get_set)
  have dr: "distinct (map fst ?room)"
    using inv by (simp add: room_inv_def distinct_map_set)
  show ?thesis
    using memberships_inv [OF d g dr] by (simp add: map_get_set)
qed

lemma rooms_join_resume [simp]: "rooms (handleJoin_resume s ws kept answer now) = rooms s"
  by (cases kept) (simp add: handleJoin_resume_def split: settled.splits option.splits)

lemma join_invalid_rooms:
  assumes "handleJoin_begin s ws message = Done s'"
  shows "rooms s' = rooms s"
  using assms
  by (auto simp: handleJoin_begin_def Let_def split: option.splits if_splits)

lemma join_begin_cases:
  "(\<exists>s'. handleJoin_begin s ws message = Done s' \<and> rooms s' = rooms s)
   \<or> (\<exists>r u n. msg_roomId message = Some r \<and> r \<noteq> [] \<and> msg_userId message = Some u \<and> u \<noteq> []
        \<and> msg_nickname message = Some n \<and> n \<noteq> [])"
  by (auto simp: handleJoin_begin_def Let_def split: option.splits if_splits)

lemma handleJoin_valid_rooms:
  assumes "msg_roomId message = Some r" "r \<noteq> []" "msg_userId message = Some u" "u \<noteq> []"
    "msg_nickname message = Some n" "n \<noteq> []"
  shows "rooms (handleJoin s ws message answer now) = joined_rooms (rooms s) ws r u n"
  using join_begin_valid [OF assms] by (simp add: handleJoin_def)

lemma handleJoin_inv:
  assumes "registry_inv s"
  shows "registry_inv (handleJoin s ws message answer now)"
proof -
  from join_begin_cases [of s ws message]
  show ?thesis
  proof (elim disjE exE conjE)
    fix s' assume "handleJoin_begin s ws message = Done s'" "rooms s' = rooms s"
    then have "rooms (handleJoin s ws message answer now) = rooms s"
      by (simp add: handleJoin_def)
    then show ?thesis using assms registry_inv_rooms by blast
  next
    fix r u n
    assume "msg_roomId message = Some r" "r \<noteq> []" "msg_userId message = Some u" "u \<noteq> []"
      "msg_nickname message = Some n" "n \<noteq> []"
    then have "rooms (handleJoin s ws message answer now) = joined_rooms (rooms s) ws r u n"
      by (rule handleJoin_valid_rooms)
    then show ?thesis
      using assms joined_rooms_inv [of "rooms s" ws r u n] by (simp add: registry_inv_def)
  qed
qed

text \<open>
  C6. In a registry that holds each room and, per room, each user once, a valid join for
  \<open>(r, u)\<close> leaves exactly one membership for that identity, with the joining socket
  and nickname; a second join for the same \<open>(r, u)\<close>, from any socket and under any
  nickname, leaves exactly one again, that of the second join. Every join, valid or
  not, keeps the invariant.
\<close>
theorem join_replaces_membership:
  assumes "registry_inv s"
    and "msg_roomId message = Some r" and "r \<noteq> []"
    and "msg_userId message = Some u" and "u \<noteq> []"
    and "msg_nickname message = Some n" and "n \<noteq> []"
    and "msg_roomId message' = Some r" and "msg_userId message' = Some u"
    and "msg_nickname message' = Some n'" and "n' \<noteq> []"
  shows "memberships (handleJoin s ws message answer now) r u =
           [\<lparr> member_ws = ws, member_userId = u, member_nickname = n \<rparr>]
       \<and> memberships (handleJoin (handleJoin s ws message answer now) ws' message' answer' now') r u =
           [\<lparr> member_ws = ws', member_userId = u, member_nickname = n' \<rparr>]
       \<and> (\<forall>w m a t. registry_inv (handleJoin s w m a t))"
proof -
  have inv: "distinct (map fst (rooms s))" "list_all (\<lambda>entry. room_inv (snd entry)) (rooms s)"
    using assms(1) by (simp_all add: registry_inv_def)
  have one: "memberships (handleJoin s ws message answer now) r u =
           [\<lparr> member_ws = ws, member_userId = u, member_nickname = n \<rparr>]"
    using joined_rooms_member [OF inv] handleJoin_valid_rooms [OF assms(2-7)] by blast
  let ?s1 = "handleJoin s ws message answer now"
  have "registry_inv ?s1" using assms(1) by (rule handleJoin_inv)
  then have inv1: "distinct (map fst (rooms ?s1))" "list_all (\<lambda>entry. room_inv (snd entry)) (rooms ?s1)"
    by (simp_all add: registry_inv_def)
  have two: "memberships (handleJoin ?s1 ws' message' answer' now') r u =
           [\<lparr> member_ws = ws', member_userId = u, member_nickname = n' \<rparr>]"
    using joined_rooms_member [OF inv1]
      handleJoin_valid_rooms [OF assms(8) assms(3) assms(9) assms(5) assms(10,11)] by blast
  show ?thesis using one two handleJoin_inv [OF assms(1)] by blast
qed

theorem join_replaces_membership_witness:
  "registry_inv initial
   \<and> memberships
        (handleJoin (handleJoin initial 0 (join_frame ''r1'' ''u1'' ''Alice'') no_history 1)
           1 (join_frame ''r1'' ''u1'' ''Al'') no_history 2) ''r1'' ''u1''
       = [\<lparr> member_ws = 1, member_userId = ''u1'', member_nickname = ''Al'' \<rparr>]
   \<and> registry_inv (handleJoin initial 0 (join_frame ''r1'' ''u1'' ''Alice'') no_history 1)"
proof -
  have i: "registry_inv initial" by code_simp
  have f: "msg_roomId (join_frame ''r1'' ''u1'' ''Alice'') = Some ''r1''"
    "msg_userId (join_frame ''r1'' ''u1'' ''Alice'') = Some ''u1''"
    "msg_nickname (join_frame ''r1'' ''u1'' ''Alice'') = Some ''Alice''"
    by (simp_all add: join_frame_def)
  have g: "msg_roomId (join_frame ''r1'' ''u1'' ''Al'') = Some ''r1''"
    "msg_userId (join_frame ''r1'' ''u1'' ''Al'') = Some ''u1''"
    "msg_nickname (join_frame ''r1'' ''u1'' ''Al'') = Some ''Al''"
    by (simp_all add: join_frame_def)
  show ?thesis
    using i join_replaces_membership [OF i f(1) _ f(2) _ f(3) _ g(1) g(2) g(3), of 0 no_history 1 1 no_history 2]
    by simp
qed

subsection \<open>Closing\<close>

lemma sent_handleDisconnect [simp]: "sent (handleDisconnect s ws) = sent s"
  by (simp add: handleDisconnect_def Let_def split: option.splits)

lemma sent_onClose: "sent (onClose s ws) = sent s"
  by (simp add: onClose_def)

lemma rooms_onClose:
  "rooms (onClose s ws) =
     rooms (handleDisconnect (s\<lparr> sockets := (sockets s)(ws := (sockets s ws)\<lparr> readyState := CLOSED \<rparr>),
                               clients := filter (\<lambda>c. c \<noteq> ws) (clients s) \<rparr>) ws)"
  by (simp add: onClose_def)

lemma handleDisconnect_changes:
  assumes "rooms (handleDisconnect s ws) \<noteq> rooms s"
  shows "\<exists>r u room member. ws_roomId (sockets s ws) = Some r \<and> ws_userId (sockets s ws) = Some u
      \<and> map_get (rooms s) r = Some room \<and> map_get room u = Some member \<and> member_ws member = ws"
  using assms
  by (auto simp: handleDisconnect_def Let_def present_def split: option.splits if_splits)

lemma handleDisconnect_stale:
  assumes "ws_roomId (sockets s ws) = Some r" and "ws_userId (sockets s ws) = Some u"
    and "map_get (rooms s) r = Some room" and "map_get room u = Some member"
    and "member_ws member \<noteq> ws"
  shows "handleDisconnect s ws = s"
  using assms by (simp add: handleDisconnect_def Let_def split: option.splits)

lemma handleDisconnect_own:
  assumes "ws_roomId (sockets s ws) = Some r" and "r \<noteq> []"
    and "ws_userId (sockets s ws) = Some u" and "u \<noteq> []"
    and "map_get (rooms s) r = Some room" and "map_get room u = Some member"
    and "member_ws member = ws"
  shows "rooms (handleDisconnect s ws) = map_set (rooms s) r (map_delete room u)"
  using assms by (simp add: handleDisconnect_def Let_def present_def map_has_def)

text \<open>
  C7. When the membership of the closing connection's \<open>(roomId, userId)\<close> is held by
  another connection, the close leaves the registry as it is; and whenever a close
  changes the registry, the entry of the closing connection's identity was held by the
  closing connection itself.
\<close>
theorem stale_close_keeps_membership:
  assumes "ws_roomId (sockets s ws) = Some r" and "ws_userId (sockets s ws) = Some u"
    and "map_get (rooms s) r = Some room" and "map_get room u = Some member"
    and "member_ws member \<noteq> ws"
  shows "rooms (onClose s ws) = rooms s
       \<and> (\<forall>s' w. rooms (onClose s' w) \<noteq> rooms s' \<longrightarrow>
            (\<exists>r' u' room' member'. ws_roomId (sockets s' w) = Some r' \<and> ws_userId (sockets s' w) = Some u'
               \<and> map_get (rooms s') r' = Some room' \<and> map_get room' u' = Some member'
               \<and> member_ws member' = w))"
proof -
  have keep: "rooms (onClose s ws) = rooms s"
    unfolding rooms_onClose
    by (subst handleDisconnect_stale [where r = r and u = u and room = room and member = member])
       (use assms in simp_all)
  have only: "\<exists>r' u' room' member'. ws_roomId (sockets s' w) = Some r' \<and> ws_userId (sockets s' w) = Some u'
               \<and> map_get (rooms s') r' = Some room' \<and> map_get room' u' = Some member'
               \<and> member_ws member' = w"
    if "rooms (onClose s' w) \<noteq> rooms s'" for s' w
  proof -
    let ?t = "s'\<lparr> sockets := (sockets s')(w := (sockets s' w)\<lparr> readyState := CLOSED \<rparr>),
                   clients := filter (\<lambda>c. c \<noteq> w) (clients s') \<rparr>"
    have "rooms (handleDisconnect ?t w) \<noteq> rooms ?t" using that by (simp add: rooms_onClose)
    from handleDisconnect_changes [OF this] show ?thesis by simp
  qed
  show ?thesis using keep only by blast
qed

text \<open>
  Alice reconnects: a second socket joins as (r1, u1); then the first socket closes.
\<close>

theorem stale_close_keeps_membership_witness:
  "rooms (onClose (handleJoin (handleConnection alice_in_room 1) 1
                     (join_frame ''r1'' ''u1'' ''Alice'') no_history 2) 0)
   = [(''r1'', [(''u1'', \<lparr> member_ws = 1, member_userId = ''u1'', member_nickname = ''Alice'' \<rparr>)])]"
proof -
  let ?s = "handleJoin (handleConnection alice_in_room 1) 1 (join_frame ''r1'' ''u1'' ''Alice'') no_history 2"
  let ?m = "\<lparr> member_ws = 1, member_userId = ''u1'', member_nickname = ''Alice'' \<rparr>"
  have h1: "ws_roomId (sockets ?s 0) = Some ''r1''" by code_simp
  have h2: "ws_userId (sockets ?s 0) = Some ''u1''" by code_simp
  have h3: "map_get (rooms ?s) ''r1'' = Some [(''u1'', ?m)]" by code_simp
  have h4: "map_get [(''u1'', ?m)] ''u1'' = Some ?m" by simp
  have h5: "member_ws ?m \<noteq> 0" by simp
  have r: "rooms ?s = [(''r1'', [(''u1'', ?m)])]" by code_simp
  show ?thesis
    using stale_close_keeps_membership [OF h1 h2 h3 h4 h5] r by simp
qed

text \<open>
  C2 fails on the code. Alice (socket 0) and Bob (socket 1) are in room \<open>r1\<close>, both
  open. Alice's connection closes, by itself or after the heartbeat has terminated it
  (Bob has answered the probe, Alice has not): her membership is removed, and nothing
  is sent, so Bob gets no \<open>leave\<close> event.
\<close>
theorem close_broadcasts_no_leave:
  "readyState (sockets alice_and_bob 1) = OPEN
   \<and> memberships alice_and_bob ''r1'' ''u1''
       = [\<lparr> member_ws = 0, member_userId = ''u1'', member_nickname = ''Alice'' \<rparr>]
   \<and> memberships (onClose alice_and_bob 0) ''r1'' ''u1'' = []
   \<and> sent (onClose alice_and_bob 0) = sent alice_and_bob
   \<and> readyState (sockets (heartbeat (onPong (heartbeat alice_and_bob) 1)) 0) = CLOSING
   \<and> readyState (sockets (heartbeat (onPong (heartbeat alice_and_bob) 1)) 1) = OPEN
   \<and> memberships (onClose (heartbeat (onPong (heartbeat alice_and_bob) 1)) 0) ''r1'' ''u1'' = []
   \<and> sent (onClose (heartbeat (onPong (heartbeat alice_and_bob) 1)) 0) = sent alice_and_bob
   \<and> \<not> list_ex (\<lambda>x. is_leave (snd x)) (sent (onClose (heartbeat (onPong (heartbeat alice_and_bob) 1)) 0))"
  by code_simp

text \<open>
  C9 fails on the code. After a second join frame, for room \<open>r2\<close>, socket 0 is bound
  to \<open>r2\<close> and still a member of \<open>r1\<close>: a broadcast to \<open>r1\<close> is sent to it, and its
  close leaves the membership in \<open>r1\<close> behind.
\<close>
theorem broadcast_reaches_rebound_socket:
  "ws_roomId (sockets alice_rebound 0) = Some ''r2''
   \<and> sent (broadcastToRoom alice_rebound ''r1'' (EvJoin ''u2'' ''Bob'' 3))
       = sent alice_rebound @ [(0, EvJoin ''u2'' ''Bob'' 3)]
   \<and> memberships (onClose alice_rebound 0) ''r1'' ''u1''
       = [\<lparr> member_ws = 0, member_userId = ''u1'', member_nickname = ''Alice'' \<rparr>]"
  by code_simp

subsection \<open>The history reply\<close>

lemma audience_ws_send [simp]: "audience (ws_send s w e) r = audience s r"
  by (rule audience_cong) simp_all

lemma sent_join_resume_ok:
  "sent (handleJoin_resume s ws (r, u, n) (Resolved \<lparr> data = Some rows, error = None \<rparr>) now) =
     sent s @ [(ws, EvHistory (rev rows))] @ map (\<lambda>w. (w, EvJoin u n now)) (audience s r)"
  by (simp add: handleJoin_resume_def sent_broadcastToRoom)

lemma sent_join_resume_error:
  "sent (handleJoin_resume s ws (r, u, n) (Resolved \<lparr> data = d, error = Some e \<rparr>) now) =
     sent s @ [(ws, EvError ''Could not load message history'')]
       @ map (\<lambda>w. (w, EvJoin u n now)) (audience s r)"
  by (simp add: handleJoin_resume_def sent_broadcastToRoom)

lemma rev_listRecent:
  "rev (listRecent table r k) =
     drop (length (filter (\<lambda>m. room_id m = r) table) - k)
       (sort_key created_at (filter (\<lambda>m. room_id m = r) table))"
  by (simp add: listRecent_def rev_take)

lemma recent_history:
  fixes table :: "stored_message list" and r :: string and k :: nat
  defines "R \<equiv> sort_key created_at (filter (\<lambda>m. room_id m = r) table)"
  defines "h \<equiv> rev (listRecent table r k)"
  shows "h = drop (length R - k) R" and "sorted (map created_at h)" and "length h \<le> k"
    and "\<forall>m \<in> set h. room_id m = r"
    and "\<forall>a \<in> set (take (length R - k) R). \<forall>b \<in> set h. created_at a \<le> created_at b"
proof -
  show h: "h = drop (length R - k) R"
    unfolding h_def R_def by (simp add: rev_listRecent)
  have sorted: "sorted (map created_at R)" unfolding R_def by simp
  have "map created_at h = drop (length R - k) (map created_at R)"
    unfolding h by (simp add: drop_map)
  then show "sorted (map created_at h)" using sorted by (simp add: sorted_wrt_drop)
  show "length h \<le> k" unfolding h by simp
  have "set h \<subseteq> set R" unfolding h by (rule set_drop_subset)
  then show "\<forall>m \<in> set h. room_id m = r" unfolding R_def by auto
  have "sorted (map created_at (take (length R - k) R @ drop (length R - k) R))"
    using sorted by simp
  then show "\<forall>a \<in> set (take (length R - k) R). \<forall>b \<in> set h. created_at a \<le> created_at b"
    unfolding h map_append sorted_append by auto
qed

lemma map_get_set_same: "map_get (map_set m k v) k = Some v"
  by (induction m k v rule: map_set.induct) auto

lemma join_begin_valid':
  assumes "msg_roomId message = Some r" "r \<noteq> []" "msg_userId message = Some u" "u \<noteq> []"
    "msg_nickname message = Some n" "n \<noteq> []"
  shows "\<exists>s1. handleJoin_begin s ws message = Await s1 (r, u, n)
       \<and> (\<exists>room. map_get (rooms s1) r = Some room
             \<and> map_get room u = Some \<lparr> member_ws = ws, member_userId = u, member_nickname = n \<rparr>)
       \<and> requests s1 = requests s @ [SelectRecent r 50]"
  using assms
  by (simp add: handleJoin_begin_def Let_def map_get_set_same)

text \<open>
  C8, as stated, fails when the storage answers the history query with an error: the
  joiner gets the error notice and the join event, and no \<open>history\<close> reply, empty or
  not.
\<close>
theorem history_failure_counterexample:
  "sent (handleJoin (handleConnection initial 0) 0 (join_frame ''r1'' ''u1'' ''Alice'')
           (Resolved \<lparr> data = None, error = Some ''connection refused'' \<rparr>) 1)
   = [(0, EvError ''Could not load message history''), (0, EvJoin ''u1'' ''Alice'' 1)]"
  by code_simp

text \<open>
  C8, amended. A valid join creates the membership and asks the storage for the 50
  most recent messages of the room before it is suspended. When the storage answers
  with rows, the joiner gets them in reverse as a private \<open>history\<close> reply; when it
  answers with an error, the joiner gets a private error notice and no \<open>history\<close>
  reply. In both cases the join event is then sent to the open members of the room. For
  a storage that answers the query as written, the rows in reverse are the room's most
  recent 50 messages (all of them when there are fewer), oldest first.
\<close>
theorem join_history_and_broadcast:
  assumes "msg_roomId message = Some r" and "r \<noteq> []"
    and "msg_userId message = Some u" and "u \<noteq> []"
    and "msg_nickname message = Some n" and "n \<noteq> []"
  shows "(\<exists>s1. handleJoin_begin s0 ws message = Await s1 (r, u, n)
            \<and> (\<exists>room. map_get (rooms s1) r = Some room
                  \<and> map_get room u = Some \<lparr> member_ws = ws, member_userId = u, member_nickname = n \<rparr>)
            \<and> requests s1 = requests s0 @ [SelectRecent r 50])
       \<and> (\<forall>s rows now.
             sent (handleJoin_resume s ws (r, u, n) (Resolved \<lparr> data = Some rows, error = None \<rparr>) now)
             = sent s @ [(ws, EvHistory (rev rows))] @ map (\<lambda>w. (w, EvJoin u n now)) (audience s r))
       \<and> (\<forall>s d e now.
             sent (handleJoin_resume s ws (r, u, n) (Resolved \<lparr> data = d, error = Some e \<rparr>) now)
             = sent s @ [(ws, EvError ''Could not load message history'')]
                 @ map (\<lambda>w. (w, EvJoin u n now)) (audience s r))
       \<and> (\<forall>table.
             sorted (map created_at (rev (listRecent table r 50)))
             \<and> length (listRecent table r 50) = min 50 (length (filter (\<lambda>m. room_id m = r) table))
             \<and> (\<forall>m \<in> set (listRecent table r 50). m \<in> set table \<and> room_id m = r)
             \<and> (\<forall>m \<in> set table. room_id m = r \<and> m \<notin> set (listRecent table r 50) \<longrightarrow>
                   (\<forall>b \<in> set (listRecent table r 50). created_at m \<le> created_at b)))"
proof -
  have recent: "sorted (map created_at (rev (listRecent table r 50)))
             \<and> length (listRecent table r 50) = min 50 (length (filter (\<lambda>m. room_id m = r) table))
             \<and> (\<forall>m \<in> set (listRecent table r 50). m \<in> set table \<and> room_id m = r)
             \<and> (\<forall>m \<in> set table. room_id m = r \<and> m \<notin> set (listRecent table r 50) \<longrightarrow>
                   (\<forall>b \<in> set (listRecent table r 50). created_at m \<le> created_at b))"
    for table
  proof -
    let ?R = "sort_key created_at (filter (\<lambda>m. room_id m = r) table)"
    let ?h = "rev (listRecent table r 50)"
    note facts = recent_history [where table = table and r = r and k = 50]
    have len: "length (listRecent table r 50) = min 50 (length (filter (\<lambda>m. room_id m = r) table))"
      by (simp add: listRecent_def)
    have sub: "\<forall>m \<in> set (listRecent table r 50). m \<in> set table \<and> room_id m = r"
    proof
      fix m assume "m \<in> set (listRecent table r 50)"
      then have "m \<in> set (rev (sort_key created_at (filter (\<lambda>m. room_id m = r) table)))"
        unfolding listRecent_def by (rule in_set_takeD)
      then show "m \<in> set table \<and> room_id m = r" by simp
    qed
    have older: "\<forall>b \<in> set (listRecent table r 50). created_at m \<le> created_at b"
      if m: "m \<in> set table" "room_id m = r" "m \<notin> set (listRecent table r 50)" for m
    proof -
      have "m \<in> set ?R" using m(1,2) by simp
      then have "m \<in> set (take (length ?R - 50) ?R @ drop (length ?R - 50) ?R)" by simp
      moreover have "m \<notin> set (drop (length ?R - 50) ?R)"
        using m(3) facts(1) by (metis set_rev)
      ultimately have "m \<in> set (take (length ?R - 50) ?R)" by (simp only: set_append Un_iff) blast
      then show ?thesis using facts(5) by (metis set_rev)
    qed
    show ?thesis using facts(2) len sub older by blast
  qed
  show ?thesis
    using join_begin_valid' [OF assms, of s0 ws] sent_join_resume_ok sent_join_resume_error recent
    by blast
qed

theorem join_history_and_broadcast_witness:
  "sent (handleJoin_resume alice_in_room 1 (''r1'', ''u2'', ''Bob'')
           (Resolved \<lparr> data = Some (listRecent example_table ''r1'' 50), error = None \<rparr>) 2)
   = sent alice_in_room
     @ [(1, EvHistory [saved_row ''r1'' ''u2'' ''Bob'' ''first'' RNone 10,
                       saved_row ''r1'' ''u1'' ''Alice'' ''second'' RNone 20])]
     @ [(0, EvJoin ''u2'' ''Bob'' 2)]"
proof -
  have f: "msg_roomId (join_frame ''r1'' ''u2'' ''Bob'') = Some ''r1''"
    "msg_userId (join_frame ''r1'' ''u2'' ''Bob'') = Some ''u2''"
    "msg_nickname (join_frame ''r1'' ''u2'' ''Bob'') = Some ''Bob''"
    by (simp_all add: join_frame_def)
  have h: "rev (listRecent example_table ''r1'' 50)
      = [saved_row ''r1'' ''u2'' ''Bob'' ''first'' RNone 10,
         saved_row ''r1'' ''u1'' ''Alice'' ''second'' RNone 20]"
    by code_simp
  have a: "audience alice_in_room ''r1'' = [0]" by code_simp
  have "sent (handleJoin_resume alice_in_room 1 (''r1'', ''u2'', ''Bob'')
           (Resolved \<lparr> data = Some (listRecent example_table ''r1'' 50), error = None \<rparr>) 2)
      = sent alice_in_room @ [(1, EvHistory (rev (listRecent example_table ''r1'' 50)))]
          @ map (\<lambda>w. (w, EvJoin ''u2'' ''Bob'' 2)) (audience alice_in_room ''r1'')"
    using join_history_and_broadcast [OF f(1) _ f(2) _ f(3), of initial 1] by simp
  then show ?thesis unfolding h a by simp
qed

subsection \<open>Leaving\<close>

lemma sockets_handleLeave: "sockets (handleLeave s ws message now) = sockets s"
  by (simp add: handleLeave_def Let_def split: option.splits)

lemma handleLeave_member:
  assumes "ws_roomId (sockets s ws) = Some r" and "r \<noteq> []"
    and "ws_userId (sockets s ws) = Some u" and "u \<noteq> []"
    and "map_get (rooms s) r = Some room" and "map_has room u"
  shows "handleLeave s ws message now =
     broadcastToRoom (s\<lparr> rooms := map_set (rooms s) r (map_delete room u) \<rparr>) r
       (EvLeave u (ws_nickname (sockets s ws)) now)"
  using assms by (simp add: handleLeave_def Let_def present_def)

lemma chat_after_persist:
  assumes "detectCrisis c call = Returned v"
  shows "\<exists>s''. handleChatMessage_resume s ws (c, r, u, n) call
                 (Resolved \<lparr> data = Some savedMessage, error = None \<rparr>) t = Normal s''
      \<and> requests s'' = requests s @
           [Insert \<lparr> new_room_id = r, new_user_id = u, new_nickname = n, new_content = c,
                     new_risk_level = riskLevel v \<rparr>]
      \<and> (\<forall>w \<in> set (audience s r). (w, chat_event savedMessage n) \<in> set (sent s''))"
  using assms
  by (auto simp: handleChatMessage_resume_def Let_def sent_broadcastToRoom chat_event_def)

text \<open>
  C10. A leave frame on a bound connection whose identity has a membership removes the
  membership and sends the leave event to the open members that remain, and it leaves
  every socket object, and so the binding of the connection, as it was. A later chat
  frame with content on the same connection is therefore accepted with the old
  binding: once the classifier has returned, the message is handed to the storage with
  the verdict's level, and when the storage has saved it, the chat event is sent to
  every open member that remains in the room that was left.
\<close>
theorem leave_keeps_binding:
  assumes "ws_roomId (sockets s ws) = Some r" and "r \<noteq> []"
    and "ws_userId (sockets s ws) = Some u" and "u \<noteq> []"
    and "map_get (rooms s) r = Some room" and "map_has room u"
    and "s' = handleLeave s ws message now"
  shows "sockets s' = sockets s
       \<and> (\<exists>room'. map_get (rooms s') r = Some room' \<and> map_get room' u = None)
       \<and> sent s' = sent s @ map (\<lambda>w. (w, EvLeave u (ws_nickname (sockets s ws)) now)) (audience s' r)
       \<and> (\<forall>chat c. msg_content chat = Some c \<and> c \<noteq> [] \<longrightarrow>
            handleChatMessage_begin s' ws chat = Await s' (c, r, u, ws_nickname (sockets s ws))
            \<and> (\<forall>call v savedMessage t. detectCrisis c call = Returned v \<longrightarrow>
                 (\<exists>s''. handleChatMessage s' ws chat call
                           (Resolved \<lparr> data = Some savedMessage, error = None \<rparr>) t = Normal s''
                    \<and> requests s'' = requests s' @
                         [Insert \<lparr> new_room_id = r, new_user_id = u,
                                   new_nickname = ws_nickname (sockets s ws), new_content = c,
                                   new_risk_level = riskLevel v \<rparr>]
                    \<and> (\<forall>w \<in> set (audience s' r).
                          (w, chat_event savedMessage (ws_nickname (sockets s ws))) \<in> set (sent s'')))))"
proof -
  let ?t = "s\<lparr> rooms := map_set (rooms s) r (map_delete room u) \<rparr>"
  let ?n = "ws_nickname (sockets s ws)"
  have eq: "s' = broadcastToRoom ?t r (EvLeave u ?n now)"
    unfolding assms(7) using assms(1-6) by (rule handleLeave_member)
  have sock: "sockets s' = sockets s" unfolding eq by simp
  have rooms: "rooms s' = map_set (rooms s) r (map_delete room u)" unfolding eq by simp
  have gone: "\<exists>room'. map_get (rooms s') r = Some room' \<and> map_get room' u = None"
    unfolding rooms by (simp add: map_get_set_same map_get_delete)
  have aud: "audience ?t r = audience s' r"
    by (rule audience_cong) (simp_all add: eq)
  have sent: "sent s' = sent s @ map (\<lambda>w. (w, EvLeave u ?n now)) (audience s' r)"
    unfolding aud [symmetric] unfolding eq by (simp add: sent_broadcastToRoom)
  have chat: "handleChatMessage_begin s' ws chat = Await s' (c, r, u, ?n)
            \<and> (\<forall>call v savedMessage t. detectCrisis c call = Returned v \<longrightarrow>
                 (\<exists>s''. handleChatMessage s' ws chat call
                           (Resolved \<lparr> data = Some savedMessage, error = None \<rparr>) t = Normal s''
                    \<and> requests s'' = requests s' @
                         [Insert \<lparr> new_room_id = r, new_user_id = u, new_nickname = ?n,
                                   new_content = c, new_risk_level = riskLevel v \<rparr>]
                    \<and> (\<forall>w \<in> set (audience s' r). (w, chat_event savedMessage ?n) \<in> set (sent s''))))"
    if c: "msg_content chat = Some c" "c \<noteq> []" for chat c
  proof -
    have b: "handleChatMessage_begin s' ws chat = Await s' (c, r, u, ?n)"
      using chat_begin_bound [OF c, of s' ws r u] assms(1-4) sock by simp
    show ?thesis
      using b chat_after_persist [of c _ _ s' ws r u ?n]
      by (simp add: handleChatMessage_def)
  qed
  show ?thesis using sock gone sent chat by blast
qed

theorem leave_keeps_binding_witness:
  "ws_roomId (sockets (handleLeave alice_and_bob 0 leave_frame 3) 0) = Some ''r1''
   \<and> sent (handleLeave alice_and_bob 0 leave_frame 3)
       = sent alice_and_bob @ [(1, EvLeave ''u1'' (Some ''Alice'') 3)]
   \<and> (\<exists>s''. handleChatMessage (handleLeave alice_and_bob 0 leave_frame 3) 0 (chat_frame ''still here'')
               NoToken (saved_ok ''still here'' RNone) 4 = Normal s''
          \<and> (1, chat_event (saved_row ''r1'' ''u1'' ''Alice'' ''still here'' RNone 7) (Some ''Alice''))
              \<in> set (sent s''))"
proof -
  let ?s' = "handleLeave alice_and_bob 0 leave_frame 3"
  have h1: "ws_roomId (sockets alice_and_bob 0) = Some ''r1''" by code_simp
  have h3: "ws_userId (sockets alice_and_bob 0) = Some ''u1''" by code_simp
  have h5: "map_get (rooms alice_and_bob) ''r1'' =
      Some [(''u1'', \<lparr> member_ws = 0, member_userId = ''u1'', member_nickname = ''Alice'' \<rparr>),
            (''u2'', \<lparr> member_ws = 1, member_userId = ''u2'', member_nickname = ''Bob'' \<rparr>)]"
    by code_simp
  have h6: "map_has [(''u1'', \<lparr> member_ws = 0, member_userId = ''u1'', member_nickname = ''Alice'' \<rparr>),
            (''u2'', \<lparr> member_ws = 1, member_userId = ''u2'', member_nickname = ''Bob'' \<rparr>)] ''u1''"
    by code_simp
  have n: "ws_nickname (sockets alice_and_bob 0) = Some ''Alice''" by code_simp
  have a: "audience ?s' ''r1'' = [1]" by code_simp
  have c: "msg_content (chat_frame ''still here'') = Some ''still here''" by (simp add: chat_frame_def)
  have d: "detectCrisis ''still here'' NoToken = Returned (analyzeWithKeywords ''still here'')"
    by code_simp
  note th = leave_keeps_binding [OF h1 _ h3 _ h5 h6 refl, of leave_frame 3, unfolded n a]
  have b: "ws_roomId (sockets ?s' 0) = Some ''r1''" using th h1 by simp
  have s: "sent ?s' = sent alice_and_bob @ [(1, EvLeave ''u1'' (Some ''Alice'') 3)]"
    using th by simp
  have "\<exists>s''. handleChatMessage ?s' 0 (chat_frame ''still here'') NoToken
                 (Resolved \<lparr> data = Some (saved_row ''r1'' ''u1'' ''Alice'' ''still here'' RNone 7),
                             error = None \<rparr>) 4 = Normal s''
          \<and> (\<forall>w \<in> set [1::nat].
                (w, chat_event (saved_row ''r1'' ''u1'' ''Alice'' ''still here'' RNone 7) (Some ''Alice''))
                \<in> set (sent s''))"
    using th c d by blast
  then show ?thesis using b s by (simp add: saved_ok_def)
qed

subsection \<open>The registry invariant holds in every state that the server reaches\<close>

lemma room_inv_delete: "room_inv room \<Longrightarrow> room_inv (map_delete room u)"
  by (simp add: room_inv_def map_delete_def distinct_map_filter list_all_iff)

lemma registry_inv_replace:
  assumes "registry_inv s" and "room_inv room'"
  shows "registry_inv (s\<lparr> rooms := map_set (rooms s) r room' \<rparr>)"
  using assms by (simp add: registry_inv_def distinct_map_set list_all_map_set)

lemma registry_inv_lookup:
  "registry_inv s \<Longrightarrow> map_get (rooms s) r = Some room \<Longrightarrow> room_inv room"
  by (rule room_inv_lookup [of "rooms s" r]) (simp_all add: registry_inv_def)

lemma handleLeave_inv:
  assumes "registry_inv s"
  shows "registry_inv (handleLeave s ws message now)"
proof -
  have "rooms (handleLeave s ws message now) = rooms s
      \<or> (\<exists>r u room. map_get (rooms s) r = Some room
            \<and> rooms (handleLeave s ws message now) = map_set (rooms s) r (map_delete room u))"
    by (auto simp: handleLeave_def Let_def split: option.splits)
  then show ?thesis
  proof (elim disjE exE conjE)
    assume "rooms (handleLeave s ws message now) = rooms s"
    then show ?thesis using assms registry_inv_rooms by blast
  next
    fix r u room
    assume g: "map_get (rooms s) r = Some room"
      and e: "rooms (handleLeave s ws message now) = map_set (rooms s) r (map_delete room u)"
    have "registry_inv (s\<lparr> rooms := map_set (rooms s) r (map_delete room u) \<rparr>)"
      using assms registry_inv_lookup [OF assms g] by (simp add: registry_inv_replace room_inv_delete)
    moreover have "rooms (handleLeave s ws message now)
        = rooms (s\<lparr> rooms := map_set (rooms s) r (map_delete room u) \<rparr>)"
      using e by simp
    ultimately show ?thesis using registry_inv_rooms by blast
  qed
qed

lemma handleDisconnect_inv:
  assumes "registry_inv s"
  shows "registry_inv (handleDisconnect s ws)"
proof -
  have "rooms (handleDisconnect s ws) = rooms s
      \<or> (\<exists>r u room. map_get (rooms s) r = Some room
            \<and> rooms (handleDisconnect s ws) = map_set (rooms s) r (map_delete room u))"
    by (auto simp: handleDisconnect_def Let_def split: option.splits)
  then show ?thesis
  proof (elim disjE exE conjE)
    assume "rooms (handleDisconnect s ws) = rooms s"
    then show ?thesis using assms registry_inv_rooms by blast
  next
    fix r u room
    assume g: "map_get (rooms s) r = Some room"
      and e: "rooms (handleDisconnect s ws) = map_set (rooms s) r (map_delete room u)"
    have "registry_inv (s\<lparr> rooms := map_set (rooms s) r (map_delete room u) \<rparr>)"
      using assms registry_inv_lookup [OF assms g] by (simp add: registry_inv_replace room_inv_delete)
    moreover have "rooms (handleDisconnect s ws)
        = rooms (s\<lparr> rooms := map_set (rooms s) r (map_delete room u) \<rparr>)"
      using e by simp
    ultimately show ?thesis using registry_inv_rooms by blast
  qed
qed

lemma onClose_inv: "registry_inv s \<Longrightarrow> registry_inv (onClose s ws)"
  unfolding onClose_def
  by (rule handleDisconnect_inv) (simp add: registry_inv_def)

lemma rooms_chat_resume:
  "rooms (caught (handleChatMessage_resume s ws kept call answer now) ws) = rooms s"
  by (cases kept)
     (simp add: handleChatMessage_resume_def caught_def Let_def
        split: attempt.splits settled.splits option.splits)

lemma rooms_chat: "rooms (caught (handleChatMessage s ws message call answer now) ws) = rooms s"
proof (cases "handleChatMessage_begin s ws message")
  case (Done s')
  then have "rooms s' = rooms s"
    by (auto simp: handleChatMessage_begin_def Let_def split: option.splits if_splits)
  then show ?thesis using Done by (simp add: handleChatMessage_def caught_def)
next
  case (Await s' kept)
  then have "s' = s"
    by (auto simp: handleChatMessage_begin_def Let_def split: option.splits if_splits)
  then show ?thesis using Await by (simp add: handleChatMessage_def rooms_chat_resume)
qed

lemma onMessage_inv:
  assumes "registry_inv s"
  shows "registry_inv (onMessage s ws frame env)"
proof (cases frame)
  case Unparseable
  then show ?thesis using assms by (simp add: onMessage_def registry_inv_def)
next
  case (Frame message)
  have "registry_inv (caught (handleMessage s ws message env) ws)"
  proof -
    consider "msg_type message = ''join''"
      | "msg_type message \<noteq> ''join''" "msg_type message = ''leave''"
      | "msg_type message \<noteq> ''join''" "msg_type message \<noteq> ''leave''" "msg_type message = ''chat''"
      | "msg_type message \<noteq> ''join''" "msg_type message \<noteq> ''leave''" "msg_type message \<noteq> ''chat''"
      by blast
    then show ?thesis
    proof cases
      case 1
      then show ?thesis using assms by (simp add: handleMessage_def caught_def handleJoin_inv)
    next
      case 2
      then show ?thesis using assms by (simp add: handleMessage_def caught_def handleLeave_inv)
    next
      case 3
      then have "rooms (caught (handleMessage s ws message env) ws) = rooms s"
        by (simp add: handleMessage_def rooms_chat)
      then show ?thesis using assms registry_inv_rooms by blast
    next
      case 4
      then show ?thesis using assms by (simp add: handleMessage_def caught_def registry_inv_def)
    qed
  qed
  then show ?thesis using Frame by (simp add: onMessage_def)
qed

lemma rooms_heartbeat_fold: "rooms (fold heartbeat_client cs s) = rooms s"
  by (induction cs arbitrary: s) (simp_all add: heartbeat_client_def terminate_def)

lemma handle_event_inv: "registry_inv s \<Longrightarrow> registry_inv (handle_event s ev)"
proof (cases ev)
  case (Connected ws)
  assume "registry_inv s"
  then show ?thesis using Connected by (simp add: handleConnection_def registry_inv_def)
next
  case (Received ws frame env)
  assume "registry_inv s"
  then show ?thesis using Received by (simp add: onMessage_inv)
next
  case (Ponged ws)
  assume "registry_inv s"
  then show ?thesis using Ponged by (simp add: onPong_def registry_inv_def)
next
  case Tick
  assume "registry_inv s"
  then show ?thesis using Tick by (simp add: heartbeat_def registry_inv_def rooms_heartbeat_fold)
next
  case (Closed ws)
  assume "registry_inv s"
  then show ?thesis using Closed by (simp add: onClose_inv)
qed

lemma foldl_handle_event_inv: "registry_inv s \<Longrightarrow> registry_inv (foldl handle_event s events)"
  by (induction events arbitrary: s) (simp_all add: handle_event_inv)

lemma registry_inv_run: "registry_inv (run events)"
  unfolding run_def by (rule foldl_handle_event_inv) (simp add: initial_def registry_inv_def)

end
